theory Spec2Isabelle
  imports Main "HOL-Library.Sublist"
begin

section \<open>Strings, bytes and exceptions\<close>

text \<open>
  A Python \<open>str\<close> is a sequence of Unicode code points; a code point is a natural number.
  Literals of the source are written with \<open>str\<close>, which maps each character of an ASCII
  literal to its code point. A \<open>bytes\<close> object is a sequence of numbers below 256.
  The value of an HTTP header is a \<open>string\<close>: the HTTP client decodes header bytes as
  ISO-8859-1, one character per byte.
\<close>

type_synonym codepoint = nat
type_synonym pystr = "codepoint list"
type_synonym pybytes = "nat list"

definition str :: "string \<Rightarrow> pystr" where
  "str s = map of_char s"

text \<open>\<open>str.isspace\<close> for one code point: the table of CPython's \<open>str.strip()\<close>.\<close>

definition isspace :: "codepoint \<Rightarrow> bool" where
  "isspace c =
     ((9 \<le> c \<and> c \<le> 13) \<or> (28 \<le> c \<and> c \<le> 32) \<or> c = 133 \<or> c = 160 \<or> c = 5760 \<or>
      (8192 \<le> c \<and> c \<le> 8202) \<or> c = 8232 \<or> c = 8233 \<or> c = 8239 \<or> c = 8287 \<or> c = 12288)"

text \<open>\<open>s.strip()\<close>: leading and trailing whitespace removed.\<close>

definition strip :: "pystr \<Rightarrow> pystr" where
  "strip s = rev (dropWhile isspace (rev (dropWhile isspace s)))"

text \<open>\<open>bytes.strip()\<close> removes ASCII whitespace only.\<close>

definition bytes_isspace :: "nat \<Rightarrow> bool" where
  "bytes_isspace b = ((9 \<le> b \<and> b \<le> 13) \<or> b = 32)"

definition bytes_strip :: "pybytes \<Rightarrow> pybytes" where
  "bytes_strip s = rev (dropWhile bytes_isspace (rev (dropWhile bytes_isspace s)))"

definition startswith :: "pystr \<Rightarrow> pystr \<Rightarrow> bool" where
  "startswith s p = prefix p s"

text \<open>\<open>s.endswith(t)\<close> for a tuple \<open>t\<close> of suffixes.\<close>

definition endswith :: "pystr \<Rightarrow> pystr list \<Rightarrow> bool" where
  "endswith s sufs = list_ex (\<lambda>suf. suffix suf s) sufs"

text \<open>
  \<open>str.lower()\<close> on a header value. On the code points below 256 Python lowers
  \<open>A\<close>..\<open>Z\<close> and the capital letters \<open>0xC0\<close>..\<open>0xDE\<close> other than \<open>0xD7\<close>, each to the code
  point 32 above it, and leaves the rest.
\<close>

definition lower_char :: "char \<Rightarrow> char" where
  "lower_char c =
     (let n = (of_char c :: nat)
      in if (65 \<le> n \<and> n \<le> 90) \<or> (192 \<le> n \<and> n \<le> 222 \<and> n \<noteq> 215)
         then char_of (n + 32) else c)"

definition lower :: "string \<Rightarrow> string" where
  "lower s = map lower_char s"

text \<open>
  The exceptions of the model. Each of them derives from Python's \<open>Exception\<close>, so an
  \<open>except Exception\<close> clause catches every value of this type.
\<close>

datatype exn =
    ConnectionError | Timeout | MalformedResponse | MissingSchema | HTTPError
  | TypeError | AttributeError | IndexError | OSError | JSONDecodeError | UnicodeEncodeError

section \<open>The network as the resolver sees it\<close>

text \<open>
  \<open>r.iter_lines(decode_unicode=True)\<close> is a generator: each step yields an item or raises.
  An item is a decoded line, an undecoded line (the library yields \<open>bytes\<close> when the response
  declares no encoding) or \<open>None\<close>, which the source tests for.
\<close>

datatype item = PyNone | PyStr pystr | PyBytes pybytes

datatype step = Yield item | Throw exn

record response =
  content_type :: "string option"
  iter_lines :: "step list"
  close_raises :: "exn option"

text \<open>
  \<open>requests.head\<close> and \<open>requests.get\<close> return a response or raise. The trace records every
  request sent and every \<open>close\<close> called, in order.
\<close>

record network =
  requests_head :: "pystr \<Rightarrow> nat \<Rightarrow> exn + response"
  requests_get :: "pystr \<Rightarrow> nat \<Rightarrow> exn + response"

datatype event = Head pystr nat | Get pystr nat | Close

section \<open>\<open>resolve_playlist\<close>\<close>

definition max_lines :: nat where
  "max_lines = 64"

text \<open>
  The \<open>for raw in r.iter_lines(...)\<close> loop, with \<open>lines_read\<close> as the counter. The result is
  \<open>Inl e\<close> when the loop raises \<open>e\<close>, \<open>Inr (Some line)\<close> when it returns \<open>line\<close>, and
  \<open>Inr None\<close> when it ends (by exhaustion or \<open>break\<close>) without returning.
  For a \<open>bytes\<close> line, \<open>line.startswith("#")\<close> raises \<open>TypeError\<close>; it is evaluated only when
  \<open>not line\<close> is false.
\<close>

fun scan_lines :: "nat \<Rightarrow> step list \<Rightarrow> exn + pystr option" where
  "scan_lines lines_read [] = Inr None"
| "scan_lines lines_read (Throw e # rest) = Inl e"
| "scan_lines lines_read (Yield PyNone # rest) = scan_lines lines_read rest"
| "scan_lines lines_read (Yield (PyStr raw) # rest) =
     (let line = strip raw; lines_read' = lines_read + 1
      in if line = [] \<or> startswith line (str ''#'') then
           (if lines_read' \<ge> max_lines then Inr None else scan_lines lines_read' rest)
         else if startswith line (str ''http://'') \<or> startswith line (str ''https://'') then
           Inr (Some line)
         else
           (if lines_read' \<ge> max_lines then Inr None else scan_lines lines_read' rest))"
| "scan_lines lines_read (Yield (PyBytes raw) # rest) =
     (let line = bytes_strip raw; lines_read' = lines_read + 1
      in if line = [] then
           (if lines_read' \<ge> max_lines then Inr None else scan_lines lines_read' rest)
         else Inl TypeError)"

text \<open>
  \<open>try: if r is not None: r.close() except Exception: pass\<close>: the call is made, what it
  raises is dropped.
\<close>

definition close_quietly :: "response option \<Rightarrow> event list \<Rightarrow> event list" where
  "close_quietly r tr = (case r of None \<Rightarrow> tr | Some _ \<Rightarrow> tr @ [Close])"

text \<open>
  Lines 69 to 99 of the source: the playlist sniff on the response \<open>r\<close> in hand, with its
  \<open>except Exception: return url\<close> and its \<open>finally\<close>. A response object always has the
  attribute \<open>iter_lines\<close>, so the \<open>getattr\<close> test is true and a new request is sent only
  when \<open>r\<close> is \<open>None\<close>.
\<close>

definition sniff ::
  "network \<Rightarrow> pystr \<Rightarrow> nat \<Rightarrow> response option \<Rightarrow> event list \<Rightarrow> (exn + pystr) \<times> event list" where
  "sniff net url timeout r tr =
     (case r of
        None \<Rightarrow>
          (case requests_get net url timeout of
             Inl e \<Rightarrow> (Inr url, close_quietly None (tr @ [Get url timeout]))
           | Inr r' \<Rightarrow>
               (case scan_lines 0 (iter_lines r') of
                  Inl e \<Rightarrow> (Inr url, close_quietly (Some r') (tr @ [Get url timeout]))
                | Inr (Some line) \<Rightarrow> (Inr line, close_quietly (Some r') (tr @ [Get url timeout]))
                | Inr None \<Rightarrow> (Inr url, close_quietly (Some r') (tr @ [Get url timeout]))))
      | Some r' \<Rightarrow>
          (case scan_lines 0 (iter_lines r') of
             Inl e \<Rightarrow> (Inr url, close_quietly (Some r') tr)
           | Inr (Some line) \<Rightarrow> (Inr line, close_quietly (Some r') tr)
           | Inr None \<Rightarrow> (Inr url, close_quietly (Some r') tr)))"

definition stream_extensions :: "pystr list" where
  "stream_extensions = [str ''.mp3'', str ''.aac'', str ''.m3u8'', str ''.pls'', str ''.m3u'']"

text \<open>
  Lines 60 to 99: what follows the probe, given the response \<open>r\<close> and the value of
  \<open>content_type\<close>.
\<close>

definition after_probe ::
  "network \<Rightarrow> pystr \<Rightarrow> nat \<Rightarrow> response option \<Rightarrow> string \<Rightarrow> event list \<Rightarrow> (exn + pystr) \<times> event list" where
  "after_probe net url timeout r ctype tr =
     (if sublist ''audio'' (lower ctype) \<or> endswith url [str ''.mp3'', str ''.aac'', str ''.m3u8'']
      then (Inr url, close_quietly r tr)
      else sniff net url timeout r tr)"

text \<open>\<open>r.headers.get("content-type", "") or ""\<close>.\<close>

definition header_or_empty :: "response \<Rightarrow> string" where
  "header_or_empty r = (case content_type r of None \<Rightarrow> [] | Some v \<Rightarrow> v)"

text \<open>The body of the outer \<open>try\<close> (lines 43 to 99).\<close>

definition resolve_body :: "network \<Rightarrow> pystr \<Rightarrow> nat \<Rightarrow> (exn + pystr) \<times> event list" where
  "resolve_body net url timeout =
     (if endswith url stream_extensions then (Inr url, [])
      else
        (case requests_head net url timeout of
           Inr r \<Rightarrow> after_probe net url timeout (Some r) (header_or_empty r) [Head url timeout]
         | Inl e \<Rightarrow>
             (case requests_get net url timeout of
                Inr r \<Rightarrow>
                  after_probe net url timeout (Some r) (header_or_empty r)
                    [Head url timeout, Get url timeout]
              | Inl e' \<Rightarrow> (Inr url, [Head url timeout, Get url timeout]))))"

text \<open>The whole function: the outer \<open>except Exception: return url\<close> around the body.\<close>

definition resolve_playlist :: "network \<Rightarrow> pystr \<Rightarrow> nat \<Rightarrow> (exn + pystr) \<times> event list" where
  "resolve_playlist net url timeout =
     (case resolve_body net url timeout of
        (Inl e, tr) \<Rightarrow> (Inr url, tr)
      | (Inr v, tr) \<Rightarrow> (Inr v, tr))"

text \<open>
  The response whose headers and body the resolver works on: the answer to \<open>HEAD\<close>, or the
  answer to the streamed \<open>GET\<close> when \<open>HEAD\<close> raised.
\<close>

definition probed :: "network \<Rightarrow> pystr \<Rightarrow> nat \<Rightarrow> response option" where
  "probed net url timeout =
     (case requests_head net url timeout of
        Inr r \<Rightarrow> Some r
      | Inl e \<Rightarrow> (case requests_get net url timeout of Inr r \<Rightarrow> Some r | Inl e' \<Rightarrow> None))"

section \<open>What the specification says\<close>

text \<open>
  The playlist sniff in the specification's words: of the first 64 lines of the body, drop the
  blank ones and the ones starting with \<open>#\<close>; the answer is the first line left that starts
  with \<open>http://\<close> or \<open>https://\<close>, if there is one. Lines are taken stripped.
\<close>

definition first_stream_url :: "pystr list \<Rightarrow> pystr option" where
  "first_stream_url ls =
     find (\<lambda>l. startswith l (str ''http://'') \<or> startswith l (str ''https://''))
       (filter (\<lambda>l. l \<noteq> [] \<and> \<not> startswith l (str ''#'')) (map strip (take max_lines ls)))"

definition is_stream_line :: "pystr \<Rightarrow> bool" where
  "is_stream_line l = (startswith l (str ''http://'') \<or> startswith l (str ''https://''))"

section \<open>Concrete inputs\<close>

text \<open>
  Three servers. \<open>serving r\<close> answers \<open>GET\<close> with \<open>r\<close> and \<open>HEAD\<close> with the headers of \<open>r\<close>
  alone: the answer to a \<open>HEAD\<close> request has no body, so its iterator yields nothing.
  \<open>get_only r\<close> fails on \<open>HEAD\<close> and answers \<open>GET\<close> with \<open>r\<close>. \<open>refusing\<close> refuses every
  connection.
\<close>

definition serving :: "response \<Rightarrow> network" where
  "serving r = \<lparr>requests_head = (\<lambda>url timeout. Inr (r\<lparr>iter_lines := []\<rparr>)),
                 requests_get = (\<lambda>url timeout. Inr r)\<rparr>"

definition get_only :: "response \<Rightarrow> network" where
  "get_only r = \<lparr>requests_head = (\<lambda>url timeout. Inl ConnectionError),
                  requests_get = (\<lambda>url timeout. Inr r)\<rparr>"

definition refusing :: network where
  "refusing = \<lparr>requests_head = (\<lambda>url timeout. Inl ConnectionError),
                requests_get = (\<lambda>url timeout. Inl ConnectionError)\<rparr>"

definition text_response :: "string \<Rightarrow> step list \<Rightarrow> response" where
  "text_response ctype steps = \<lparr>content_type = Some ctype, iter_lines = steps, close_raises = None\<rparr>"

definition example_playlist :: "step list" where
  "example_playlist =
     [Yield (PyStr (str ''#comment'')), Yield (PyStr []),
      Yield (PyStr (str ''http://s/a'')), Yield (PyStr (str ''http://s/b''))]"

definition indented_playlist :: "step list" where
  "indented_playlist =
     [Yield (PyStr (str ''  #EXTM3U'')), Yield (PyStr (str ''  http://s/a  ''))]"

text \<open>
  The same kind of body as the library yields it when the response declares no encoding:
  the lines are \<open>bytes\<close>.
\<close>

definition bytes_playlist :: "step list" where
  "bytes_playlist =
     [Yield (PyBytes (str ''  #EXTM3U'')), Yield (PyBytes (str ''http://s/a''))]"

section \<open>Directory search\<close>

text \<open>
  A Python \<open>dict\<close> with string keys and string values, in insertion order. A station and a
  search result are such dicts.
\<close>

type_synonym pydict = "(pystr \<times> pystr) list"

text \<open>\<open>d.get(k)\<close> and \<open>d.get(k, default)\<close>.\<close>

definition dict_get :: "pydict \<Rightarrow> string \<Rightarrow> pystr option" where
  "dict_get d k = map_of d (str k)"

definition dict_get_or :: "pydict \<Rightarrow> string \<Rightarrow> pystr \<Rightarrow> pystr" where
  "dict_get_or d k dflt = (case map_of d (str k) of None \<Rightarrow> dflt | Some v \<Rightarrow> v)"

text \<open>
  The directory answers one request, for a parameter name and a query, with the parsed list
  of results, or the request, \<open>raise_for_status\<close> or \<open>r.json()\<close> raises.
\<close>

type_synonym directory = "string \<Rightarrow> pystr \<Rightarrow> exn + pydict list"

text \<open>
  One pass of the loop body's \<open>try\<close>: the request for parameter \<open>m\<close>, with
  \<open>except Exception: items = []\<close>.
\<close>

definition request_items :: "directory \<Rightarrow> pystr \<Rightarrow> string \<Rightarrow> pydict list" where
  "request_items dir query m = (case dir m query of Inl e \<Rightarrow> [] | Inr found \<Rightarrow> found)"

text \<open>
  The \<open>for m in modes\<close> loop of \<open>_search_thread\<close>: \<open>items\<close> is the loop's variable,
  \<open>asked\<close> the parameter names requested so far.
\<close>

fun search_modes ::
  "directory \<Rightarrow> pystr \<Rightarrow> string list \<Rightarrow> pydict list \<Rightarrow> string list \<Rightarrow> pydict list \<times> string list" where
  "search_modes dir query [] items asked = (items, asked)"
| "search_modes dir query (m # ms) items asked =
     (let items' = request_items dir query m
      in if items' \<noteq> [] then (items', asked @ [m])
         else search_modes dir query ms items' (asked @ [m]))"

definition search_thread :: "directory \<Rightarrow> pystr \<Rightarrow> string \<Rightarrow> pydict list \<times> string list" where
  "search_thread dir query mode =
     (let modes = (if mode = ''Auto'' then [''name'', ''tag'', ''country'', ''language'']
                   else [lower mode])
      in search_modes dir query modes [] [])"

definition tag_only :: directory where
  "tag_only m query =
     (if m = ''name'' then Inl HTTPError
      else if m = ''tag'' then Inr [[(str ''name'', str ''Jazz'')]]
      else Inr [[(str ''name'', str ''Other'')]])"

section \<open>The stations file: \<open>json.dump\<close> and \<open>json.load\<close>\<close>

text \<open>
  The value \<open>json.load\<close> returns. A number is kept as its literal (\<open>int\<close> and \<open>float\<close> of
  the literal are not modelled; \<open>NaN\<close>, \<open>Infinity\<close> and \<open>-Infinity\<close> are literals too); an
  object is a \<open>dict\<close>, its keys in the order of their first occurrence.
\<close>

datatype json =
    JNull | JBool bool | JNumber pystr | JString pystr
  | JArray "json list" | JObject "(pystr \<times> json) list"

subsection \<open>Writing\<close>

text \<open>
  \<open>json.dump(self.stations, f, ensure_ascii=False, indent=2)\<close> on a list of dicts of strings.
  With \<open>ensure_ascii=False\<close> the encoder escapes the backslash (92), the double quote (34)
  and the code points below 32, and writes every other code point as it is.
\<close>

definition hexdigit :: "nat \<Rightarrow> codepoint" where
  "hexdigit n = (if n < 10 then 48 + n else 87 + n)"

definition escape_char :: "codepoint \<Rightarrow> pystr" where
  "escape_char c =
     (if c = 92 then [92, 92]
      else if c = 34 then [92, 34]
      else if c = 8 then [92, 98]
      else if c = 12 then [92, 102]
      else if c = 10 then [92, 110]
      else if c = 13 then [92, 114]
      else if c = 9 then [92, 116]
      else if c < 32 then [92, 117, 48, 48, hexdigit (c div 16), hexdigit (c mod 16)]
      else [c])"

definition encode_basestring :: "pystr \<Rightarrow> pystr" where
  "encode_basestring s = 34 # concat (map escape_char s) @ [34]"

text \<open>A line feed and two spaces for each level of nesting.\<close>

definition newline_indent :: "nat \<Rightarrow> pystr" where
  "newline_indent level = 10 # replicate (2 * level) 32"

text \<open>
  The encoder writes the first element bare and the separator before each later one.
\<close>

fun join_rest :: "pystr \<Rightarrow> pystr list \<Rightarrow> pystr" where
  "join_rest sep [] = []"
| "join_rest sep (x # xs) = sep @ x @ join_rest sep xs"

fun join :: "pystr \<Rightarrow> pystr list \<Rightarrow> pystr" where
  "join sep [] = []"
| "join sep (x # xs) = x @ join_rest sep xs"

definition encode_item :: "pystr \<times> pystr \<Rightarrow> pystr" where
  "encode_item kv = encode_basestring (fst kv) @ [58, 32] @ encode_basestring (snd kv)"

definition encode_dict :: "nat \<Rightarrow> pydict \<Rightarrow> pystr" where
  "encode_dict level d =
     (if d = [] then [123, 125]
      else [123] @ newline_indent (level + 1) @
           join (44 # newline_indent (level + 1)) (map encode_item d) @
           newline_indent level @ [125])"

definition encode_list :: "nat \<Rightarrow> pydict list \<Rightarrow> pystr" where
  "encode_list level ds =
     (if ds = [] then [91, 93]
      else [91] @ newline_indent (level + 1) @
           join (44 # newline_indent (level + 1)) (map (encode_dict (level + 1)) ds) @
           newline_indent level @ [93])"

definition json_dumps :: "pydict list \<Rightarrow> pystr" where
  "json_dumps stations = encode_list 0 stations"

text \<open>
  The file is opened with \<open>encoding="utf-8"\<close>: writing a surrogate code point, or one
  beyond \<open>0x10FFFF\<close>, raises.
\<close>

definition utf8_encodable :: "pystr \<Rightarrow> bool" where
  "utf8_encodable s = list_all (\<lambda>c. c < 55296 \<or> (57343 < c \<and> c < 1114112)) s"

subsection \<open>Reading\<close>

definition is_ws :: "codepoint \<Rightarrow> bool" where
  "is_ws c = (c = 32 \<or> c = 9 \<or> c = 10 \<or> c = 13)"

definition skip_ws :: "pystr \<Rightarrow> pystr" where
  "skip_ws s = dropWhile is_ws s"

definition hex_value :: "codepoint \<Rightarrow> nat option" where
  "hex_value c =
     (if 48 \<le> c \<and> c \<le> 57 then Some (c - 48)
      else if 97 \<le> c \<and> c \<le> 102 then Some (c - 87)
      else if 65 \<le> c \<and> c \<le> 70 then Some (c - 55)
      else None)"

definition hex4 :: "codepoint \<Rightarrow> codepoint \<Rightarrow> codepoint \<Rightarrow> codepoint \<Rightarrow> nat option" where
  "hex4 a b c d =
     (case (hex_value a, hex_value b, hex_value c, hex_value d) of
        (Some w, Some x, Some y, Some z) \<Rightarrow> Some (((w * 16 + x) * 16 + y) * 16 + z)
      | _ \<Rightarrow> None)"

text \<open>The table of one-letter escapes.\<close>

definition backslash :: "codepoint \<Rightarrow> codepoint option" where
  "backslash e =
     (if e = 34 then Some 34 else if e = 92 then Some 92 else if e = 47 then Some 47
      else if e = 98 then Some 8 else if e = 102 then Some 12 else if e = 110 then Some 10
      else if e = 114 then Some 13 else if e = 116 then Some 9 else None)"

definition emit :: "codepoint \<Rightarrow> (pystr \<times> pystr) option \<Rightarrow> (pystr \<times> pystr) option" where
  "emit c r = (case r of None \<Rightarrow> None | Some (s, rest) \<Rightarrow> Some (c # s, rest))"

text \<open>
  \<open>scanstring\<close>, called after the opening quote: the decoded string and what follows the
  closing quote, or \<open>None\<close> for \<open>JSONDecodeError\<close>. A high surrogate escape followed by a low
  one is one code point.
\<close>

fun scanstring :: "pystr \<Rightarrow> (pystr \<times> pystr) option" where
  "scanstring [] = None"
| "scanstring (c # cs) =
     (if c = 34 then Some ([], cs)
      else if c = 92 then
        (case cs of
           [] \<Rightarrow> None
         | e # es \<Rightarrow>
             if e = 117 then
               (case es of
                  h1 # h2 # h3 # h4 # rest \<Rightarrow>
                    (case hex4 h1 h2 h3 h4 of
                       None \<Rightarrow> None
                     | Some uni \<Rightarrow>
                         (case rest of
                            b # u # rest1 \<Rightarrow>
                              if 55296 \<le> uni \<and> uni \<le> 56319 \<and> b = 92 \<and> u = 117 then
                                (case rest1 of
                                   g1 # g2 # g3 # g4 # rest2 \<Rightarrow>
                                     (case hex4 g1 g2 g3 g4 of
                                        None \<Rightarrow> None
                                      | Some uni2 \<Rightarrow>
                                          if 56320 \<le> uni2 \<and> uni2 \<le> 57343 then
                                            emit (65536 + ((uni - 55296) * 1024 + (uni2 - 56320)))
                                              (scanstring rest2)
                                          else emit uni (scanstring rest))
                                 | _ \<Rightarrow> None)
                              else emit uni (scanstring rest)
                          | _ \<Rightarrow> emit uni (scanstring rest)))
                | _ \<Rightarrow> None)
             else (case backslash e of None \<Rightarrow> None | Some ch \<Rightarrow> emit ch (scanstring es)))
      else if c < 32 then None
      else emit c (scanstring cs))"

text \<open>The number pattern \<open>-?(0|[1-9][0-9]*)(\.[0-9]+)?([eE][-+]?[0-9]+)?\<close>, part by part.\<close>

definition is_digit :: "codepoint \<Rightarrow> bool" where
  "is_digit c = (48 \<le> c \<and> c \<le> 57)"

definition match_int :: "pystr \<Rightarrow> (pystr \<times> pystr) option" where
  "match_int s =
     (let sign = (if startswith s [45] then [45] else []); t = drop (length sign) s
      in case t of
           [] \<Rightarrow> None
         | d # ds \<Rightarrow>
             if d = 48 then Some (sign @ [48], ds)
             else if is_digit d then Some (sign @ d # takeWhile is_digit ds, dropWhile is_digit ds)
             else None)"

definition match_frac :: "pystr \<Rightarrow> pystr \<times> pystr" where
  "match_frac s =
     (case s of
        c # d # ds \<Rightarrow>
          if c = 46 \<and> is_digit d then (c # d # takeWhile is_digit ds, dropWhile is_digit ds)
          else ([], s)
      | _ \<Rightarrow> ([], s))"

definition match_exp :: "pystr \<Rightarrow> pystr \<times> pystr" where
  "match_exp s =
     (case s of
        [] \<Rightarrow> ([], s)
      | e # t \<Rightarrow>
          if e = 101 \<or> e = 69 then
            (let sign = (if startswith t [45] \<or> startswith t [43] then take 1 t else []);
                 t' = drop (length sign) t
             in case t' of
                  [] \<Rightarrow> ([], s)
                | d # ds \<Rightarrow>
                    if is_digit d then (e # sign @ d # takeWhile is_digit ds, dropWhile is_digit ds)
                    else ([], s))
          else ([], s))"

definition match_number :: "pystr \<Rightarrow> (pystr \<times> pystr) option" where
  "match_number s =
     (case match_int s of
        None \<Rightarrow> None
      | Some (i, r1) \<Rightarrow>
          (let (f, r2) = match_frac r1; (e, r3) = match_exp r2 in Some (i @ f @ e, r3)))"

text \<open>\<open>dict(pairs)\<close>: a later value for a key replaces the earlier one, in its place.\<close>

fun dict_set :: "(pystr \<times> json) list \<Rightarrow> pystr \<Rightarrow> json \<Rightarrow> (pystr \<times> json) list" where
  "dict_set [] k v = [(k, v)]"
| "dict_set ((k', v') # d) k v = (if k' = k then (k', v) # d else (k', v') # dict_set d k v)"

definition dict :: "(pystr \<times> json) list \<Rightarrow> (pystr \<times> json) list" where
  "dict pairs = foldl (\<lambda>d kv. dict_set d (fst kv) (snd kv)) [] pairs"

text \<open>
  The scanner. \<open>scan_once\<close> reads one value at the head of the text; \<open>parse_array\<close> is
  called at the first value of a non-empty array, \<open>parse_object\<close> after the opening quote
  of a key. Each returns what it read and the rest of the text, or \<open>None\<close> for
  \<open>JSONDecodeError\<close>. The tests on lengths always hold (a scan never returns more text than
  it was given); they are what the termination proof sees. The interpreter's recursion
  limit is not modelled.
\<close>

function scan_once :: "pystr \<Rightarrow> (json \<times> pystr) option"
  and parse_array :: "pystr \<Rightarrow> (json list \<times> pystr) option"
  and parse_object :: "pystr \<Rightarrow> ((pystr \<times> json) list \<times> pystr) option" where
  "scan_once s =
     (case s of
        [] \<Rightarrow> None
      | c # cs \<Rightarrow>
          if c = 34 then
            (case scanstring cs of None \<Rightarrow> None | Some (v, rest) \<Rightarrow> Some (JString v, rest))
          else if c = 123 then
            (case skip_ws cs of
               [] \<Rightarrow> None
             | d # ds \<Rightarrow>
                 if d = 125 then Some (JObject [], ds)
                 else if d = 34 then
                   (case parse_object ds of
                      None \<Rightarrow> None
                    | Some (pairs, rest) \<Rightarrow> Some (JObject (dict pairs), rest))
                 else None)
          else if c = 91 then
            (case skip_ws cs of
               [] \<Rightarrow> None
             | d # ds \<Rightarrow>
                 if d = 93 then Some (JArray [], ds)
                 else
                   (case parse_array (d # ds) of
                      None \<Rightarrow> None
                    | Some (vs, rest) \<Rightarrow> Some (JArray vs, rest)))
          else if startswith s (str ''null'') then Some (JNull, drop 4 s)
          else if startswith s (str ''true'') then Some (JBool True, drop 4 s)
          else if startswith s (str ''false'') then Some (JBool False, drop 5 s)
          else
            (case match_number s of
               Some (literal, rest) \<Rightarrow> Some (JNumber literal, rest)
             | None \<Rightarrow>
                 if startswith s (str ''NaN'') then Some (JNumber (str ''NaN''), drop 3 s)
                 else if startswith s (str ''Infinity'') then
                   Some (JNumber (str ''Infinity''), drop 8 s)
                 else if startswith s (str ''-Infinity'') then
                   Some (JNumber (str ''-Infinity''), drop 9 s)
                 else None))"
| "parse_array s =
     (case scan_once s of
        None \<Rightarrow> None
      | Some (v, rest) \<Rightarrow>
          if length rest < length s then
            (case skip_ws rest of
               [] \<Rightarrow> None
             | d # ds \<Rightarrow>
                 if d = 93 then Some ([v], ds)
                 else if d = 44 then
                   (case parse_array (skip_ws ds) of
                      None \<Rightarrow> None
                    | Some (vs, rest') \<Rightarrow> Some (v # vs, rest'))
                 else None)
          else None)"
| "parse_object s =
     (case scanstring s of
        None \<Rightarrow> None
      | Some (key, r1) \<Rightarrow>
          if length r1 \<le> length s then
            (case skip_ws r1 of
               [] \<Rightarrow> None
             | d # ds \<Rightarrow>
                 if d = 58 then
                   (case scan_once (skip_ws ds) of
                      None \<Rightarrow> None
                    | Some (v, r2) \<Rightarrow>
                        if length r2 < length s then
                          (case skip_ws r2 of
                             [] \<Rightarrow> None
                           | d2 # ds2 \<Rightarrow>
                               if d2 = 125 then Some ([(key, v)], ds2)
                               else if d2 = 44 then
                                 (case skip_ws ds2 of
                                    [] \<Rightarrow> None
                                  | q # qs \<Rightarrow>
                                      if q = 34 then
                                        (case parse_object qs of
                                           None \<Rightarrow> None
                                         | Some (pairs, rest') \<Rightarrow> Some ((key, v) # pairs, rest'))
                                      else None)
                               else None)
                        else None)
                 else None)
          else None)"
  by pat_completeness auto
termination
proof (relation "measure (\<lambda>x. case x of Inl s \<Rightarrow> 2 * length s
                                    | Inr (Inl s) \<Rightarrow> 2 * length s + 1
                                    | Inr (Inr s) \<Rightarrow> 2 * length s + 1)", goal_cases)
  case 1
  show ?case by simp
next
  case (2 s c cs d ds)
  have "length (skip_ws cs) \<le> length cs"
    unfolding skip_ws_def by (rule length_dropWhile_le)
  with 2 show ?case by simp
next
  case (3 s c cs d ds)
  have "length (skip_ws cs) \<le> length cs"
    unfolding skip_ws_def by (rule length_dropWhile_le)
  with 3 show ?case by simp
next
  case (4 s)
  show ?case by simp
next
  case (5 s x v rest d ds)
  have "length (skip_ws rest) \<le> length rest" "length (skip_ws ds) \<le> length ds"
    unfolding skip_ws_def by (rule length_dropWhile_le)+
  with 5 show ?case by simp
next
  case (6 s x key r1 d ds)
  have "length (skip_ws r1) \<le> length r1" "length (skip_ws ds) \<le> length ds"
    unfolding skip_ws_def by (rule length_dropWhile_le)+
  with 6 show ?case by simp
next
  case (7 s x key r1 d ds y v r2 d2 ds2 q qs)
  have "length (skip_ws r2) \<le> length r2" "length (skip_ws ds2) \<le> length ds2"
    unfolding skip_ws_def by (rule length_dropWhile_le)+
  with 7 show ?case by simp
qed

text \<open>
  \<open>json.load\<close> on the text of the file: a leading byte order mark is refused, whitespace is
  allowed around the one value, and nothing else may follow it.
\<close>

definition json_loads :: "pystr \<Rightarrow> json option" where
  "json_loads s =
     (if startswith s [65279] then None
      else case scan_once (skip_ws s) of
             None \<Rightarrow> None
           | Some (obj, rest) \<Rightarrow> if skip_ws rest = [] then Some obj else None)"

text \<open>A list of stations as the value \<open>json.load\<close> returns for it.\<close>

definition stations_json :: "pydict list \<Rightarrow> json" where
  "stations_json stations =
     JArray (map (\<lambda>d. JObject (map (\<lambda>kv. (fst kv, JString (snd kv))) d)) stations)"

section \<open>The application: stations, player and storage\<close>

text \<open>
  The file \<open>stations.json\<close>: absent, present but not readable as text, cut short by a write
  that raised, or holding a text.
\<close>

datatype disk_file = Absent | Unreadable | Partial | Text pystr

text \<open>
  \<open>load_stations\<close>: the only guard is \<open>os.path.exists\<close>; what \<open>open\<close> or \<open>json.load\<close>
  raises leaves the function. A file cut short does not hold a JSON document.
\<close>

definition load_stations :: "disk_file \<Rightarrow> exn + json" where
  "load_stations f =
     (case f of
        Absent \<Rightarrow> Inr (JArray [])
      | Unreadable \<Rightarrow> Inl OSError
      | Partial \<Rightarrow> Inl JSONDecodeError
      | Text doc \<Rightarrow>
          (case json_loads doc of None \<Rightarrow> Inl JSONDecodeError | Some data \<Rightarrow> Inr data))"

text \<open>
  What the application does to the outside, in order: calls of the media engine and dialogs
  (a dialog is recorded by its title).
\<close>

datatype effect =
    EngineStop | EnginePlay pystr | ShowInfo string | ShowError string | AskYesNo string

text \<open>
  The state of \<open>RadioApp\<close> with its \<open>RadioPlayer\<close> (\<open>current_url\<close>, \<open>playing\<close>), the
  file and whether it can be opened for writing. A station is a dict from strings to strings. Handlers run one at a time on the control
  thread; a background task is modelled as running to its end at once.
\<close>

record app =
  stations :: "pydict list"
  listbox :: "pystr list"
  search_results :: "pydict list"
  current_url :: "pystr option"
  playing :: bool
  status_var :: pystr
  stations_file :: disk_file
  writable :: bool
  effects :: "effect list"

text \<open>
  \<open>RadioPlayer.stop\<close> and \<open>RadioPlayer.play\<close>. The engine's own \<open>stop\<close> is taken not to
  raise; \<open>engine_ok\<close> says that the engine calls of \<open>play\<close> do not raise.
\<close>

definition stop :: "app \<Rightarrow> app" where
  "stop a = a\<lparr>playing := False, current_url := None, effects := effects a @ [EngineStop]\<rparr>"

definition play :: "bool \<Rightarrow> pystr \<Rightarrow> app \<Rightarrow> app" where
  "play engine_ok url a =
     (let a1 = (if playing a then stop a else a)
      in if engine_ok
         then a1\<lparr>current_url := Some url, playing := True,
                 effects := effects a1 @ [EnginePlay url]\<rparr>
         else a1\<lparr>playing := False\<rparr>)"

text \<open>
  \<open>save_stations\<close>: \<open>open(..., "w")\<close> raises when the file is not writable and leaves it as
  it was; otherwise the file is truncated and the document written, which raises part of the
  way when a code point cannot be encoded. Either exception ends in the error dialog.
\<close>

definition save_stations :: "app \<Rightarrow> app" where
  "save_stations a =
     (if \<not> writable a then a\<lparr>effects := effects a @ [ShowError ''Save error'']\<rparr>
      else if \<not> utf8_encodable (json_dumps (stations a))
      then a\<lparr>stations_file := Partial, effects := effects a @ [ShowError ''Save error'']\<rparr>
      else a\<lparr>stations_file := Text (json_dumps (stations a))\<rparr>)"

definition on_save :: "app \<Rightarrow> app" where
  "on_save a = (let a1 = save_stations a in a1\<lparr>effects := effects a1 @ [ShowInfo ''Saved'']\<rparr>)"

text \<open>\<open>del xs[idx]\<close> and \<open>listbox.delete(idx)\<close> for an index in range.\<close>

definition delete_at :: "nat \<Rightarrow> 'a list \<Rightarrow> 'a list" where
  "delete_at idx xs = take idx xs @ drop (Suc idx) xs"

text \<open>
  \<open>on_delete\<close>: \<open>sel\<close> is the selection (\<open>None\<close> for an empty one), \<open>answer\<close> what the user
  answers to the confirmation.
\<close>

definition on_delete :: "nat option \<Rightarrow> bool \<Rightarrow> app \<Rightarrow> exn + app" where
  "on_delete sel answer a =
     (case sel of
        None \<Rightarrow> Inr (a\<lparr>effects := effects a @ [ShowInfo ''Delete station'']\<rparr>)
      | Some idx \<Rightarrow>
          if length (stations a) \<le> idx then Inl IndexError
          else
            (let a1 = a\<lparr>effects := effects a @ [AskYesNo ''Delete'']\<rparr>
             in if answer then
                  (let a2 = (if current_url a1 = dict_get (stations a1 ! idx) ''url''
                             then (stop a1)\<lparr>status_var := str ''Stopped''\<rparr>
                             else a1);
                       a3 = a2\<lparr>stations := delete_at idx (stations a2),
                               listbox := delete_at idx (listbox a2)\<rparr>
                   in Inr (save_stations a3))
                else Inr a1))"

text \<open>
  \<open>on_ok\<close> of the station editor: \<open>index\<close> is \<open>None\<close> when adding, the three strings are the
  contents of the entry fields.
\<close>

definition station_entry :: "pystr \<Rightarrow> pystr \<Rightarrow> pystr \<Rightarrow> pydict" where
  "station_entry name info url = [(str ''name'', name), (str ''info'', info), (str ''url'', url)]"

definition on_ok :: "nat option \<Rightarrow> pystr \<Rightarrow> pystr \<Rightarrow> pystr \<Rightarrow> app \<Rightarrow> exn + app" where
  "on_ok index name_var info_var url_var a =
     (let name = strip name_var; info = strip info_var; url = strip url_var
      in if name = [] \<or> url = []
         then Inr (a\<lparr>effects := effects a @ [ShowInfo ''Validation'']\<rparr>)
         else
           (let entry = station_entry name info url; label = name @ str '' - '' @ info
            in case index of
                 None \<Rightarrow>
                   Inr (save_stations
                         (a\<lparr>stations := stations a @ [entry], listbox := listbox a @ [label]\<rparr>))
               | Some i \<Rightarrow>
                   if length (stations a) \<le> i then Inl IndexError
                   else
                     Inr (save_stations
                           (a\<lparr>stations := (stations a)[i := entry],
                              listbox := take i (listbox a) @ label # drop (Suc i) (listbox a)\<rparr>))))"

text \<open>\<open>item.get("url_resolved") or item.get("url") or ""\<close>.\<close>

definition item_url :: "pydict \<Rightarrow> pystr" where
  "item_url item =
     (let first = dict_get_or item ''url_resolved'' []
      in if first \<noteq> [] then first else dict_get_or item ''url'' [])"

text \<open>
  Adding the selected search result: \<open>on_add_search\<close>, its background task and the
  \<open>_finish\<close> callback, in sequence.
\<close>

definition finish :: "pydict \<Rightarrow> pystr \<Rightarrow> app \<Rightarrow> app" where
  "finish entry prev_status a =
     (let label = dict_get_or entry ''name'' [] @ str '' - '' @ dict_get_or entry ''info'' [];
          a1 = save_stations (a\<lparr>stations := stations a @ [entry], listbox := listbox a @ [label]\<rparr>);
          a2 = a1\<lparr>effects := effects a1 @ [ShowInfo ''Added'']\<rparr>
      in a2\<lparr>status_var := prev_status\<rparr>)"

definition add_search_thread :: "network \<Rightarrow> pydict \<Rightarrow> pystr \<Rightarrow> pystr \<Rightarrow> app \<Rightarrow> app" where
  "add_search_thread net item url prev_status a =
     (let resolved = (case fst (resolve_playlist net url 5) of Inl e \<Rightarrow> url | Inr v \<Rightarrow> v);
          entry = station_entry (dict_get_or item ''name'' (str ''(no name)''))
                    (dict_get_or item ''tags'' []) resolved
      in finish entry prev_status a)"

definition on_add_search :: "network \<Rightarrow> nat option \<Rightarrow> app \<Rightarrow> exn + app" where
  "on_add_search net sel a =
     (case sel of
        None \<Rightarrow> Inr (a\<lparr>effects := effects a @ [ShowInfo ''Add'']\<rparr>)
      | Some idx \<Rightarrow>
          if length (search_results a) \<le> idx then Inl IndexError
          else
            (let item = search_results a ! idx; url = item_url item
             in Inr (add_search_thread net item url (status_var a)
                       (a\<lparr>status_var := str ''Resolving...''\<rparr>))))"

text \<open>An application that has just started with the stations \<open>sts\<close> and a writable file.\<close>

definition started :: "pydict list \<Rightarrow> app" where
  "started sts =
     \<lparr>stations = sts, listbox = [], search_results = [], current_url = None, playing = False,
      status_var = str ''Stopped'', stations_file = Absent, writable = True, effects = []\<rparr>"

text \<open>Two search results of the directory: one with an empty name, one without any URL.\<close>

definition nameless_result :: pydict where
  "nameless_result = [(str ''name'', []), (str ''url'', str ''http://r/a.mp3'')]"

definition urlless_result :: pydict where
  "urlless_result = [(str ''name'', str ''N'')]"

text \<open>
  For a URL without a scheme, such as the empty one, \<open>requests\<close> raises before it connects.
\<close>

definition no_scheme :: network where
  "no_scheme = \<lparr>requests_head = (\<lambda>url timeout. Inl MissingSchema),
                 requests_get = (\<lambda>url timeout. Inl MissingSchema)\<rparr>"

text \<open>Two stations, the first of them playing.\<close>

definition two_stations :: app where
  "two_stations =
     (started [station_entry (str ''A'') [] (str ''http://s/a''),
               station_entry (str ''B'') [] (str ''http://s/b'')])
       \<lparr>current_url := Some (str ''http://s/a''), playing := True\<rparr>"

section \<open>Properties of \<open>resolve_playlist\<close>\<close>

lemma last_dropWhile_suffix:
  "dropWhile P xs \<noteq> [] \<Longrightarrow> last (dropWhile P xs) = last xs"
  by (induction xs) (auto split: if_splits)

lemma dropWhile_rev_stripped:
  "dropWhile P (rev (dropWhile P (rev (dropWhile P s)))) = rev (dropWhile P (rev (dropWhile P s)))"
proof (cases "dropWhile P (rev (dropWhile P s)) = []")
  case True
  show ?thesis unfolding True by simp
next
  case False
  let ?t = "dropWhile P s"
  let ?u = "dropWhile P (rev ?t)"
  have t: "?t \<noteq> []"
  proof
    assume e: "?t = []"
    from False show False unfolding e by simp
  qed
  have "last ?u = last (rev ?t)" using False by (rule last_dropWhile_suffix)
  also have "\<dots> = hd ?t" using t by (simp add: last_rev)
  finally have "\<not> P (last ?u)" using t by (simp add: hd_dropWhile)
  moreover have "hd (rev ?u) = last ?u" using False by (simp add: hd_rev)
  ultimately have "\<not> P (hd (rev ?u))" by simp
  with False show ?thesis by (cases "rev ?u") auto
qed

lemma strip_idem: "strip (strip s) = strip s"
  unfolding strip_def by (simp add: dropWhile_rev_stripped)

lemma stream_line_not_skipped:
  "startswith l (str ''http://'') \<or> startswith l (str ''https://'') \<Longrightarrow>
   l \<noteq> [] \<and> \<not> startswith l (str ''#'')"
  by (cases l) (auto simp: startswith_def str_def)

lemma find_filter_weaker:
  "(\<And>x. P x \<Longrightarrow> Q x) \<Longrightarrow> find P (filter Q xs) = find P xs"
  by (induction xs) auto

lemma first_stream_url_find:
  "first_stream_url ls = find is_stream_line (map strip (take max_lines ls))"
  unfolding first_stream_url_def is_stream_line_def
  by (rule find_filter_weaker) (rule stream_line_not_skipped)

lemma scan_lines_skip_None:
  "scan_lines n (filter (\<lambda>s. s \<noteq> Yield PyNone) steps) = scan_lines n steps"
  by (induction n steps rule: scan_lines.induct) (auto simp: Let_def)

text \<open>The loop on a run of decoded lines, started with \<open>n\<close> lines already counted.\<close>

lemma scan_lines_text:
  "n < max_lines \<Longrightarrow>
   scan_lines n (map (\<lambda>l. Yield (PyStr l)) ls @ rest) =
     (case find is_stream_line (map strip (take (max_lines - n) ls)) of
        Some l \<Rightarrow> Inr (Some l)
      | None \<Rightarrow> if max_lines - n \<le> length ls then Inr None else scan_lines (n + length ls) rest)"
proof (induction ls arbitrary: n)
  case Nil
  then show ?case by simp
next
  case (Cons l ls)
  show ?case
  proof (cases "is_stream_line (strip l)")
    case True
    then have "strip l \<noteq> [] \<and> \<not> startswith (strip l) (str ''#'')"
      using stream_line_not_skipped by (simp add: is_stream_line_def)
    with True Cons.prems show ?thesis
      by (cases "max_lines - n") (auto simp: is_stream_line_def Let_def)
  next
    case False
    show ?thesis
    proof (cases "Suc n < max_lines")
      case True
      then obtain k where k: "max_lines - n = Suc (Suc k)" "max_lines - Suc n = Suc k"
        by (metis Suc_diff_Suc Cons.prems zero_less_diff gr0_implies_Suc)
      with False True Cons.IH[of "Suc n"] show ?thesis
        by (auto simp: is_stream_line_def Let_def split: option.splits)
    next
      case budget: False
      with Cons.prems have "max_lines - n = Suc 0" by simp
      with False budget show ?thesis
        by (auto simp: is_stream_line_def Let_def)
    qed
  qed
qed

lemma scan_lines_Some:
  "scan_lines n steps = Inr (Some line) \<Longrightarrow>
   \<exists>raw. Yield (PyStr raw) \<in> set steps \<and> line = strip raw \<and> is_stream_line line"
  by (induction n steps rule: scan_lines.induct)
     (auto simp: Let_def is_stream_line_def split: if_splits)

text \<open>No exception leaves the body, so the outer handler never runs.\<close>

lemma resolve_body_Inr: "\<exists>v. fst (resolve_body net url timeout) = Inr v"
  by (auto simp: resolve_body_def after_probe_def sniff_def split: sum.splits option.splits)

lemma resolve_eq_body: "resolve_playlist net url timeout = resolve_body net url timeout"
proof -
  obtain v where "fst (resolve_body net url timeout) = Inr v"
    using resolve_body_Inr by blast
  then show ?thesis
    by (cases "resolve_body net url timeout") (auto simp: resolve_playlist_def)
qed

lemma resolve_url_or_line:
  "fst (resolve_playlist net url timeout) = Inr url \<or>
   (\<exists>r line. probed net url timeout = Some r \<and> scan_lines 0 (iter_lines r) = Inr (Some line) \<and>
      fst (resolve_playlist net url timeout) = Inr line)"
  unfolding resolve_eq_body
  by (auto simp: resolve_body_def probed_def after_probe_def sniff_def
           split: sum.splits option.splits)

lemma resolve_reaches_sniff:
  assumes "\<not> endswith url stream_extensions"
    and "probed net url timeout = Some r"
    and "\<not> sublist ''audio'' (lower (header_or_empty r))"
  shows "fst (resolve_playlist net url timeout) =
     (case scan_lines 0 (iter_lines r) of Inr (Some line) \<Rightarrow> Inr line | _ \<Rightarrow> Inr url)"
proof -
  have ext: "\<not> endswith url [str ''.mp3'', str ''.aac'', str ''.m3u8'']"
    using assms(1) by (auto simp: endswith_def stream_extensions_def)
  show ?thesis
    using assms ext unfolding resolve_eq_body
    by (auto simp: resolve_body_def probed_def after_probe_def sniff_def
             split: sum.splits option.splits)
qed

lemma listen_no_extension: "\<not> endswith (str ''http://r/listen'') stream_extensions"
  by (simp add: endswith_def stream_extensions_def str_def suffix_Cons
      suffix_bot.extremum_unique)

lemma probed_serving: "probed (serving r) url timeout = Some (r\<lparr>iter_lines := []\<rparr>)"
  by (simp add: probed_def serving_def)

lemma probed_get_only: "probed (get_only r) url timeout = Some r"
  by (simp add: probed_def get_only_def)

lemma plain_not_audio: "\<not> sublist ''audio'' (lower ''text/plain'')"
  by (simp add: sublist_code lower_def lower_char_def)

text \<open>
  The playlist sniff on decoded lines. When the resolver reaches the sniff (no known
  extension, a probed response whose content type does not mention audio) and the probed
  response yields the decoded lines \<open>ls\<close> (then anything at all, once the scan is decided by
  a stream line or by the budget of 64), the result is the first stream line among the
  first 64 lines, blank and \<open>#\<close> lines skipped, and the original URL when there is none.
\<close>

lemma sniff_first_stream_url:
  assumes "\<not> endswith url stream_extensions"
    and "probed net url timeout = Some r"
    and "\<not> sublist ''audio'' (lower (header_or_empty r))"
    and "filter (\<lambda>s. s \<noteq> Yield PyNone) (iter_lines r) = map (\<lambda>l. Yield (PyStr l)) ls @ rest"
    and "rest = [] \<or> max_lines \<le> length ls \<or> first_stream_url ls \<noteq> None"
  shows "fst (resolve_playlist net url timeout) =
     Inr (case first_stream_url ls of Some l \<Rightarrow> l | None \<Rightarrow> url)"
proof -
  have "scan_lines 0 (iter_lines r) = scan_lines 0 (map (\<lambda>l. Yield (PyStr l)) ls @ rest)"
    using assms(4) scan_lines_skip_None[of 0 "iter_lines r"] by simp
  also have "\<dots> = (case first_stream_url ls of Some l \<Rightarrow> Inr (Some l) | None \<Rightarrow> Inr None)"
    using assms(5) scan_lines_text[of 0 ls rest]
    by (auto simp: first_stream_url_find max_lines_def split: option.splits)
  finally show ?thesis
    using resolve_reaches_sniff[OF assms(1-3)] by (simp split: option.splits)
qed

text \<open>When \<open>HEAD\<close> fails the streamed \<open>GET\<close> is scanned, and the playlist is read.\<close>

lemma sniff_after_failed_head:
  "fst (resolve_playlist (get_only (text_response ''text/plain'' example_playlist))
          (str ''http://r/listen'') 5) = Inr (str ''http://s/a'')"
proof -
  let ?r = "text_response ''text/plain'' example_playlist"
  let ?ls = "[str ''#comment'', [], str ''http://s/a'']"
  let ?rest = "[Yield (PyStr (str ''http://s/b''))]"
  have h3: "\<not> sublist ''audio'' (lower (header_or_empty ?r))"
    using plain_not_audio by (simp add: text_response_def header_or_empty_def)
  have h4: "filter (\<lambda>s. s \<noteq> Yield PyNone) (iter_lines ?r) = map (\<lambda>l. Yield (PyStr l)) ?ls @ ?rest"
    by (simp add: text_response_def example_playlist_def)
  have v: "first_stream_url ?ls = Some (str ''http://s/a'')"
    by (simp add: first_stream_url_def max_lines_def strip_def isspace_def startswith_def str_def)
  then have h5: "?rest = [] \<or> max_lines \<le> length ?ls \<or> first_stream_url ?ls \<noteq> None"
    by simp
  show ?thesis
    using sniff_first_stream_url[OF listen_no_extension probed_get_only h3 h4 h5] v by simp
qed

text \<open>
  After a \<open>HEAD\<close> that succeeded no \<open>GET\<close> is sent: the response scanned is the answer to
  \<open>HEAD\<close>, and when it yields no lines the input URL is returned.
\<close>

lemma no_get_after_head:
  assumes "requests_head net url timeout = Inr r"
  shows "Get url timeout \<notin> set (snd (resolve_playlist net url timeout))"
  using assms unfolding resolve_eq_body
  by (auto simp: resolve_body_def after_probe_def sniff_def close_quietly_def
           split: sum.splits option.splits)

lemma head_without_body:
  assumes "requests_head net url timeout = Inr r" and "iter_lines r = []"
  shows "fst (resolve_playlist net url timeout) = Inr url"
  using assms unfolding resolve_eq_body
  by (auto simp: resolve_body_def after_probe_def sniff_def split: sum.splits option.splits)

lemma octet_not_audio: "\<not> sublist ''audio'' (lower ''application/octet-stream'')"
  by (simp add: sublist_code lower_def lower_char_def)

text \<open>
  An undecoded line is stripped as well; when nothing is left it is passed over and counted,
  and otherwise \<open>line.startswith("#")\<close> raises and the scan is over.
\<close>

lemma scan_lines_bytes:
  "scan_lines n (Yield (PyBytes raw) # rest) =
     (if bytes_strip raw = [] then (if max_lines \<le> n + 1 then Inr None else scan_lines (n + 1) rest)
      else Inl TypeError)"
  by (simp add: Let_def)

lemma bytes_strip_comment: "bytes_strip (str ''  #EXTM3U'') = str ''#EXTM3U''"
  by (simp add: bytes_strip_def bytes_isspace_def str_def)

lemma bytes_strip_url: "bytes_strip (str ''http://s/a'') = str ''http://s/a''"
  by (simp add: bytes_strip_def bytes_isspace_def str_def)

lemma bytes_strip_blank: "bytes_strip (str ''  '') = []"
  by (simp add: bytes_strip_def bytes_isspace_def str_def)

text \<open>
  C1. The code does not do what the claim says on two inputs it really receives. (1) The
  server answers \<open>HEAD\<close>, so the response in hand is the answer to \<open>HEAD\<close>, which has no
  body: nothing is scanned, no \<open>GET\<close> is sent and the input URL is returned, although the
  playlist served for \<open>GET\<close> has the line \<open>http://s/a\<close>. (2) \<open>HEAD\<close> fails and the body served
  for \<open>GET\<close> declares no encoding: its one line \<open>http://s/a\<close> arrives as \<open>bytes\<close>, the test
  for \<open>#\<close> raises and the input URL is returned.
\<close>

theorem head_answer_hides_playlist:
  "resolve_playlist (serving (text_response ''text/plain'' example_playlist))
     (str ''http://r/listen'') 5 =
     (Inr (str ''http://r/listen''), [Head (str ''http://r/listen'') 5, Close]) \<and>
   fst (resolve_playlist
          (get_only (text_response ''application/octet-stream''
             [Yield (PyBytes (str ''http://s/a''))]))
          (str ''http://r/listen'') 5) = Inr (str ''http://r/listen'')"
proof -
  let ?url = "str ''http://r/listen''"
  let ?r = "text_response ''text/plain'' example_playlist"
  let ?b = "text_response ''application/octet-stream'' [Yield (PyBytes (str ''http://s/a''))]"
  have ext: "\<not> endswith ?url [str ''.mp3'', str ''.aac'', str ''.m3u8'']"
    using listen_no_extension by (auto simp: endswith_def stream_extensions_def)
  have "resolve_body (serving ?r) ?url 5 = (Inr ?url, [Head ?url 5, Close])"
    using listen_no_extension ext plain_not_audio
    by (simp add: resolve_body_def serving_def after_probe_def sniff_def close_quietly_def
        header_or_empty_def text_response_def)
  then have first: "resolve_playlist (serving ?r) ?url 5 = (Inr ?url, [Head ?url 5, Close])"
    by (simp add: resolve_eq_body)
  have h3: "\<not> sublist ''audio'' (lower (header_or_empty ?b))"
    using octet_not_audio by (simp add: text_response_def header_or_empty_def)
  have "scan_lines 0 (iter_lines ?b) = Inl TypeError"
    by (simp add: text_response_def scan_lines_bytes bytes_strip_url) (simp add: str_def)
  then have second: "fst (resolve_playlist (get_only ?b) ?url 5) = Inr ?url"
    using resolve_reaches_sniff[OF listen_no_extension probed_get_only h3] by simp
  from first second show ?thesis by simp
qed

text \<open>
  C2. Whatever the network does, \<open>resolve_playlist\<close> returns a value and raises nothing: the
  value is the input URL, unless a probe succeeded and the scan of its body returned a line.
  So a refused connection, a timeout or a failure while reading all give back the input.
\<close>

theorem resolve_never_raises:
  "fst (resolve_playlist net url timeout) = Inr url \<or>
   (\<exists>r line. probed net url timeout = Some r \<and> scan_lines 0 (iter_lines r) = Inr (Some line) \<and>
      fst (resolve_playlist net url timeout) = Inr line)"
  by (rule resolve_url_or_line)

theorem resolve_never_raises_witness:
  "fst (resolve_playlist refusing (str ''http://r/listen'') 5) = Inr (str ''http://r/listen'')"
  using resolve_never_raises[of refusing "str ''http://r/listen''" 5]
  by (simp add: probed_def refusing_def)

text \<open>
  C3. A URL that ends in \<open>.mp3\<close>, \<open>.aac\<close>, \<open>.m3u8\<close>, \<open>.pls\<close> or \<open>.m3u\<close> is returned
  unchanged, and the trace of requests is empty.
\<close>

theorem resolve_known_extension:
  assumes "suffix (str ''.mp3'') url \<or> suffix (str ''.aac'') url \<or> suffix (str ''.m3u8'') url \<or>
           suffix (str ''.pls'') url \<or> suffix (str ''.m3u'') url"
  shows "resolve_playlist net url timeout = (Inr url, [])"
  using assms
  by (auto simp: resolve_playlist_def resolve_body_def endswith_def stream_extensions_def)

theorem resolve_known_extension_witness:
  "suffix (str ''.mp3'') (str ''http://r/live.mp3'') \<and>
   resolve_playlist refusing (str ''http://r/live.mp3'') 5 = (Inr (str ''http://r/live.mp3''), [])"
proof -
  have h: "suffix (str ''.mp3'') (str ''http://r/live.mp3'')"
    by (simp add: str_def suffix_def)
  then show ?thesis
    using resolve_known_extension[of "str ''http://r/live.mp3''" refusing 5] by simp
qed

text \<open>
  C4. For a URL without a known extension, when the content type of the probed response
  contains \<open>audio\<close> once lowered, the input URL is returned.
\<close>

theorem resolve_audio_content_type:
  assumes "\<not> endswith url stream_extensions"
    and "probed net url timeout = Some r"
    and "content_type r = Some ct"
    and "sublist ''audio'' (lower ct)"
  shows "fst (resolve_playlist net url timeout) = Inr url"
  using assms unfolding resolve_eq_body
  by (auto simp: resolve_body_def probed_def after_probe_def header_or_empty_def
           split: sum.splits)

theorem resolve_audio_content_type_witness:
  "sublist ''audio'' (lower ''Audio/MPEG'') \<and>
   fst (resolve_playlist (serving (text_response ''Audio/MPEG'' example_playlist))
          (str ''http://r/listen'') 5) = Inr (str ''http://r/listen'')"
proof -
  have l: "lower ''Audio/MPEG'' = ''audio/mpeg''" by code_simp
  have h: "sublist ''audio'' (lower ''Audio/MPEG'')"
    unfolding l by (simp add: sublist_code)
  have c: "content_type ((text_response ''Audio/MPEG'' example_playlist)\<lparr>iter_lines := []\<rparr>) =
      Some ''Audio/MPEG''"
    by (simp add: text_response_def)
  show ?thesis
    using resolve_audio_content_type[OF listen_no_extension probed_serving c h] h by simp
qed

text \<open>
  The loop on a decoded line classifies the stripped line: a raw line and its stripped form
  are treated alike, a line whose stripped form starts with \<open>#\<close> is passed over (and
  counted), and a resolved URL that differs from the input is the stripped form of a decoded
  body line, itself free of surrounding whitespace.
\<close>

lemma sniff_strips_lines:
  "scan_lines n (Yield (PyStr raw) # rest) = scan_lines n (Yield (PyStr (strip raw)) # rest) \<and>
   (startswith (strip raw) (str ''#'') \<longrightarrow>
      scan_lines n (Yield (PyStr raw) # rest) =
        (if max_lines \<le> n + 1 then Inr None else scan_lines (n + 1) rest)) \<and>
   (fst (resolve_playlist net url timeout) = Inr v \<and> v \<noteq> url \<longrightarrow>
      (\<exists>r line. probed net url timeout = Some r \<and> Yield (PyStr line) \<in> set (iter_lines r) \<and>
         v = strip line \<and> strip v = v))"
proof (intro conjI impI)
  show "scan_lines n (Yield (PyStr raw) # rest) = scan_lines n (Yield (PyStr (strip raw)) # rest)"
    by (simp add: strip_idem)
next
  assume "startswith (strip raw) (str ''#'')"
  then show "scan_lines n (Yield (PyStr raw) # rest) =
        (if max_lines \<le> n + 1 then Inr None else scan_lines (n + 1) rest)"
    by simp
next
  assume a: "fst (resolve_playlist net url timeout) = Inr v \<and> v \<noteq> url"
  with resolve_url_or_line[of net url timeout]
  obtain r where r: "probed net url timeout = Some r" "scan_lines 0 (iter_lines r) = Inr (Some v)"
    by auto
  from scan_lines_Some[OF r(2)] obtain line where
    "Yield (PyStr line) \<in> set (iter_lines r)" "v = strip line" by blast
  with r(1) show "\<exists>r line. probed net url timeout = Some r \<and>
      Yield (PyStr line) \<in> set (iter_lines r) \<and> v = strip line \<and> strip v = v"
    using strip_idem by blast
qed

lemma strip_indented_comment: "strip (str ''  #EXTM3U'') = str ''#EXTM3U''"
  by (simp add: strip_def str_def isspace_def)

lemma strip_indented_url: "strip (str ''  http://s/a  '') = str ''http://s/a''"
  by (simp add: strip_def str_def isspace_def)

lemma scan_indented_url:
  "scan_lines 1 [Yield (PyStr (str ''  http://s/a  ''))] = Inr (Some (str ''http://s/a''))"
  by (simp add: strip_indented_url Let_def startswith_def max_lines_def) (simp add: str_def)

text \<open>On decoded lines, served after a failed \<open>HEAD\<close>, the indented comment is passed over and the URL comes back stripped.\<close>

lemma decoded_lines_stripped:
  "scan_lines 0 indented_playlist = Inr (Some (str ''http://s/a'')) \<and>
   fst (resolve_playlist (get_only (text_response ''text/plain'' indented_playlist))
          (str ''http://r/listen'') 5) = Inr (str ''http://s/a'')"
proof -
  let ?r = "text_response ''text/plain'' indented_playlist"
  let ?url = "str ''http://r/listen''"
  let ?v = "str ''http://s/a''"
  have h1: "startswith (strip (str ''  #EXTM3U'')) (str ''#'')"
    by (simp add: strip_indented_comment) (simp add: startswith_def str_def)
  have first: "scan_lines 0 indented_playlist = Inr (Some ?v)"
    using h1 scan_indented_url by (simp add: indented_playlist_def max_lines_def)
  have h3: "\<not> sublist ''audio'' (lower (header_or_empty ?r))"
    using plain_not_audio by (simp add: text_response_def header_or_empty_def)
  have "fst (resolve_playlist (get_only ?r) ?url 5) = Inr ?v"
    using resolve_reaches_sniff[OF listen_no_extension probed_get_only h3] first
    by (simp add: text_response_def)
  with first show ?thesis by simp
qed

text \<open>
  C10. The code does what the claim says for decoded lines only. A body that declares no
  encoding arrives as \<open>bytes\<close> lines: each is stripped, and a blank one is passed over, but
  the indented comment \<open>  #EXTM3U\<close> is not skipped: the test for \<open>#\<close> raises
  \<open>TypeError\<close>, the scan ends there, and the input URL is returned instead of the URL line
  that follows.
\<close>

theorem bytes_comment_ends_scan:
  "scan_lines 0 [Yield (PyBytes (str ''  ''))] = Inr None \<and>
   scan_lines 0 bytes_playlist = Inl TypeError \<and>
   fst (resolve_playlist (get_only (text_response ''application/octet-stream'' bytes_playlist))
          (str ''http://r/listen'') 5) = Inr (str ''http://r/listen'')"
proof -
  let ?b = "text_response ''application/octet-stream'' bytes_playlist"
  have blank: "scan_lines 0 [Yield (PyBytes (str ''  ''))] = Inr None"
    by (simp add: scan_lines_bytes bytes_strip_blank max_lines_def)
  have scan: "scan_lines 0 bytes_playlist = Inl TypeError"
    by (simp add: bytes_playlist_def scan_lines_bytes bytes_strip_comment) (simp add: str_def)
  have h3: "\<not> sublist ''audio'' (lower (header_or_empty ?b))"
    using octet_not_audio by (simp add: text_response_def header_or_empty_def)
  have "fst (resolve_playlist (get_only ?b) (str ''http://r/listen'') 5) =
      Inr (str ''http://r/listen'')"
    using resolve_reaches_sniff[OF listen_no_extension probed_get_only h3] scan
    by (simp add: text_response_def)
  with blank scan show ?thesis by simp
qed

section \<open>Properties of the directory search\<close>

lemma search_modes_first:
  "search_modes dir query ms [] asked =
     (case find (\<lambda>m. request_items dir query m \<noteq> []) ms of
        None \<Rightarrow> ([], asked @ ms)
      | Some m \<Rightarrow>
          (request_items dir query m,
           asked @ takeWhile (\<lambda>m. request_items dir query m = []) ms @ [m]))"
  by (induction ms arbitrary: asked) (auto simp: Let_def split: option.splits)

text \<open>
  C5. In \<open>Auto\<close> mode the parameter names are requested in the order name, tag, country,
  language. The requests stop with the first one whose answer is a non-empty list, and that
  answer is the result; a request that raises counts as an empty answer; when all four are
  empty the result is the empty list and all four were requested.
\<close>

theorem auto_search_first_nonempty:
  "search_thread dir query ''Auto'' =
     (let modes = [''name'', ''tag'', ''country'', ''language'']
      in case find (\<lambda>m. request_items dir query m \<noteq> []) modes of
           None \<Rightarrow> ([], modes)
         | Some m \<Rightarrow>
             (request_items dir query m,
              takeWhile (\<lambda>m. request_items dir query m = []) modes @ [m]))"
  by (simp add: search_thread_def search_modes_first Let_def)

theorem auto_search_first_nonempty_witness:
  "search_thread tag_only (str ''jazz'') ''Auto'' =
     ([[(str ''name'', str ''Jazz'')]], [''name'', ''tag''])"
  using auto_search_first_nonempty[of tag_only "str ''jazz''"]
  by (simp add: tag_only_def request_items_def Let_def)

section \<open>Properties of the stations file\<close>

declare scan_once.simps [simp del] parse_array.simps [simp del] parse_object.simps [simp del]
declare scanstring.simps [simp del]

lemma hex_value_hexdigit: "n < 16 \<Longrightarrow> hex_value (hexdigit n) = Some n"
  by (auto simp: hex_value_def hexdigit_def)

lemma hex4_control: "c < 32 \<Longrightarrow> hex4 48 48 (hexdigit (c div 16)) (hexdigit (c mod 16)) = Some c"
proof -
  assume c: "c < 32"
  then have "c div 16 < 16" "c mod 16 < 16" by auto
  then have "hex_value (hexdigit (c div 16)) = Some (c div 16)"
    "hex_value (hexdigit (c mod 16)) = Some (c mod 16)"
    by (simp_all add: hex_value_hexdigit)
  moreover have "hex_value 48 = Some 0" by (simp add: hex_value_def)
  ultimately show ?thesis by (simp add: hex4_def)
qed

lemma scanstring_quote: "scanstring (34 # rest) = Some ([], rest)"
  by (simp add: scanstring.simps)

lemma scanstring_plain:
  "c \<noteq> 34 \<Longrightarrow> c \<noteq> 92 \<Longrightarrow> \<not> c < 32 \<Longrightarrow> scanstring (c # t) = emit c (scanstring t)"
  by (simp add: scanstring.simps)

lemma scanstring_short:
  "backslash e = Some ch \<Longrightarrow> e \<noteq> 117 \<Longrightarrow> scanstring (92 # e # t) = emit ch (scanstring t)"
  by (simp add: scanstring.simps)

lemma scanstring_unicode:
  "hex4 h1 h2 h3 h4 = Some uni \<Longrightarrow> uni < 55296 \<Longrightarrow>
   scanstring (92 # 117 # h1 # h2 # h3 # h4 # t) = emit uni (scanstring t)"
  by (simp add: scanstring.simps split: list.splits)

lemma scanstring_escape: "scanstring (escape_char c @ t) = emit c (scanstring t)"
proof -
  consider "c = 92" | "c = 34" | "c = 8" | "c = 12" | "c = 10" | "c = 13" | "c = 9"
    | "c < 32" "c \<noteq> 8" "c \<noteq> 12" "c \<noteq> 10" "c \<noteq> 13" "c \<noteq> 9"
    | "\<not> c < 32" "c \<noteq> 92" "c \<noteq> 34"
    by fastforce
  then show ?thesis
  proof cases
    case 8
    then have "escape_char c = [92, 117, 48, 48, hexdigit (c div 16), hexdigit (c mod 16)]"
      by (simp add: escape_char_def)
    moreover have "hex4 48 48 (hexdigit (c div 16)) (hexdigit (c mod 16)) = Some c"
      using 8(1) by (rule hex4_control)
    ultimately show ?thesis using 8(1) by (simp add: scanstring_unicode)
  next
    case 9
    then have "escape_char c = [c]" by (auto simp: escape_char_def)
    with 9 show ?thesis by (simp add: scanstring_plain)
  qed (simp_all add: escape_char_def scanstring_short backslash_def)
qed

lemma scanstring_encoded:
  "scanstring (concat (map escape_char s) @ 34 # rest) = Some (s, rest)"
  by (induction s) (simp_all add: scanstring_quote scanstring_escape emit_def)

lemma scan_once_string: "scan_once (encode_basestring s @ rest) = Some (JString s, rest)"
  by (simp add: encode_basestring_def scan_once.simps scanstring_encoded)

lemma skip_ws_spaces: "\<not> is_ws x \<Longrightarrow> skip_ws (replicate n 32 @ x # rest) = x # rest"
  by (induction n) (simp_all add: skip_ws_def is_ws_def)

lemma skip_ws_indent: "\<not> is_ws x \<Longrightarrow> skip_ws (newline_indent n @ x # rest) = x # rest"
  using skip_ws_spaces[of x "2 * n" rest]
  by (simp add: newline_indent_def skip_ws_def is_ws_def)

lemma skip_ws_keep: "\<not> is_ws x \<Longrightarrow> skip_ws (x # rest) = x # rest"
  by (simp add: skip_ws_def)

lemma is_ws_simps: "\<not> is_ws 34" "\<not> is_ws 44" "\<not> is_ws 58" "\<not> is_ws 93" "\<not> is_ws 125"
  "\<not> is_ws 123" "\<not> is_ws 91" "is_ws 32"
  by (simp_all add: is_ws_def)


lemma dict_set_fresh: "k \<notin> fst ` set d \<Longrightarrow> dict_set d k v = d @ [(k, v)]"
  by (induction d) auto

lemma foldl_dict_set_distinct:
  "distinct (map fst (d @ ps)) \<Longrightarrow>
   foldl (\<lambda>d kv. dict_set d (fst kv) (snd kv)) d ps = d @ ps"
proof (induction ps arbitrary: d)
  case Nil
  show ?case by simp
next
  case (Cons p ps)
  from Cons.prems have fresh: "fst p \<notin> fst ` set d" by auto
  from Cons.prems have "distinct (map fst ((d @ [p]) @ ps))" by simp
  from Cons.IH[OF this] fresh show ?case by (simp add: dict_set_fresh)
qed

lemma dict_distinct: "distinct (map fst ps) \<Longrightarrow> dict ps = ps"
  using foldl_dict_set_distinct[of "[]" ps] by (simp add: dict_def)

text \<open>The text of one item of a dict, after the opening quote of its key.\<close>

lemma encode_item_Cons:
  "encode_item kv =
     34 # concat (map escape_char (fst kv)) @ 34 # 58 # 32 # encode_basestring (snd kv)"
  by (simp add: encode_item_def encode_basestring_def)

lemma scan_once_value:
  "scan_once (skip_ws (32 # encode_basestring v @ t)) = Some (JString v, t)"
  using scan_once_string[of v t]
  by (simp add: skip_ws_def is_ws_def encode_basestring_def)

lemma parse_object_close:
  "parse_object
     (concat (map escape_char k) @ 34 # 58 # 32 # encode_basestring v @
      newline_indent lvl @ 125 # rest) =
   Some ([(k, JString v)], rest)"
proof -
  let ?more = "newline_indent lvl @ 125 # rest"
  let ?r1 = "58 # 32 # encode_basestring v @ ?more"
  have key: "scanstring (concat (map escape_char k) @ 34 # ?r1) = Some (k, ?r1)"
    by (rule scanstring_encoded)
  have close: "skip_ws ?more = 125 # rest"
    by (rule skip_ws_indent) (simp add: is_ws_def)
  show ?thesis
    by (subst parse_object.simps)
       (simp add: key scan_once_value close skip_ws_keep is_ws_simps)
qed

lemma parse_object_more:
  assumes "parse_object t = Some (pairs, rest)"
  shows "parse_object
     (concat (map escape_char k) @ 34 # 58 # 32 # encode_basestring v @
      44 # newline_indent n @ 34 # t) =
   Some ((k, JString v) # pairs, rest)"
proof -
  let ?more = "44 # newline_indent n @ 34 # t"
  let ?r1 = "58 # 32 # encode_basestring v @ ?more"
  have key: "scanstring (concat (map escape_char k) @ 34 # ?r1) = Some (k, ?r1)"
    by (rule scanstring_encoded)
  have next_key: "skip_ws (newline_indent n @ 34 # t) = 34 # t"
    by (rule skip_ws_indent) (simp add: is_ws_def)
  show ?thesis
    by (subst parse_object.simps)
       (simp add: key scan_once_value next_key skip_ws_keep is_ws_simps assms)
qed

lemma parse_object_items:
  "parse_object
     (concat (map escape_char (fst kv)) @ 34 # 58 # 32 # encode_basestring (snd kv) @
      join_rest (44 # newline_indent n) (map encode_item kvs) @
      newline_indent lvl @ 125 # rest) =
   Some ((fst kv, JString (snd kv)) # map (\<lambda>kv. (fst kv, JString (snd kv))) kvs, rest)"
proof (induction kvs arbitrary: kv)
  case Nil
  show ?case using parse_object_close[of "fst kv" "snd kv" lvl rest] by simp
next
  case (Cons kv' kvs)
  have shape: "concat (map escape_char (fst kv)) @ 34 # 58 # 32 # encode_basestring (snd kv) @
      join_rest (44 # newline_indent n) (map encode_item (kv' # kvs)) @
      newline_indent lvl @ 125 # rest =
      concat (map escape_char (fst kv)) @ 34 # 58 # 32 # encode_basestring (snd kv) @
      44 # newline_indent n @ 34 #
      (concat (map escape_char (fst kv')) @ 34 # 58 # 32 # encode_basestring (snd kv') @
       join_rest (44 # newline_indent n) (map encode_item kvs) @
       newline_indent lvl @ 125 # rest)"
    by (simp add: encode_item_Cons)
  have step: "parse_object
      (concat (map escape_char (fst kv)) @ 34 # 58 # 32 # encode_basestring (snd kv) @
       44 # newline_indent n @ 34 #
       (concat (map escape_char (fst kv')) @ 34 # 58 # 32 # encode_basestring (snd kv') @
        join_rest (44 # newline_indent n) (map encode_item kvs) @
        newline_indent lvl @ 125 # rest)) =
      Some ((fst kv, JString (snd kv)) # (fst kv', JString (snd kv')) #
            map (\<lambda>kv. (fst kv, JString (snd kv))) kvs, rest)"
    by (rule parse_object_more) (rule Cons.IH)
  show ?case unfolding shape step by simp
qed


lemma scan_once_object:
  assumes "parse_object t = Some (pairs, rest)"
  shows "scan_once (123 # newline_indent n @ 34 # t) = Some (JObject (dict pairs), rest)"
proof -
  have "skip_ws (newline_indent n @ 34 # t) = 34 # t"
    by (rule skip_ws_indent) (simp add: is_ws_def)
  then show ?thesis
    by (subst scan_once.simps) (simp add: assms)
qed

lemma scan_once_dict:
  assumes "distinct (map fst d)"
  shows "scan_once (encode_dict lvl d @ rest) =
     Some (JObject (map (\<lambda>kv. (fst kv, JString (snd kv))) d), rest)"
proof (cases d)
  case Nil
  have "skip_ws (125 # rest) = 125 # rest" by (simp add: skip_ws_keep is_ws_simps)
  then show ?thesis
    unfolding Nil by (subst scan_once.simps) (simp add: encode_dict_def)
next
  case (Cons kv kvs)
  let ?pairs = "(fst kv, JString (snd kv)) # map (\<lambda>kv. (fst kv, JString (snd kv))) kvs"
  let ?t = "concat (map escape_char (fst kv)) @ 34 # 58 # 32 # encode_basestring (snd kv) @
      join_rest (44 # newline_indent (Suc lvl)) (map encode_item kvs) @
      newline_indent lvl @ 125 # rest"
  have shape: "encode_dict lvl (kv # kvs) @ rest = 123 # newline_indent (Suc lvl) @ 34 # ?t"
    by (simp add: encode_dict_def encode_item_Cons)
  have "map fst ?pairs = map fst d" unfolding Cons by (simp add: comp_def)
  with assms have "dict ?pairs = ?pairs" by (simp add: dict_distinct)
  moreover have "parse_object ?t = Some (?pairs, rest)" by (rule parse_object_items)
  ultimately show ?thesis
    unfolding Cons shape using scan_once_object[of ?t ?pairs rest "Suc lvl"] by simp
qed

lemma encode_dict_head: "\<exists>x. encode_dict lvl d = 123 # x"
  by (simp add: encode_dict_def)

lemma length_encode_dict: "0 < length (encode_dict lvl d)"
  using encode_dict_head[of lvl d] by auto

lemma parse_array_close:
  assumes "scan_once s = Some (v, t)" and "length t < length s" and "skip_ws t = 93 # rest"
  shows "parse_array s = Some ([v], rest)"
  by (subst parse_array.simps) (simp add: assms)

lemma parse_array_more:
  assumes "scan_once s = Some (v, t)" and "length t < length s" and "skip_ws t = 44 # u"
    and "parse_array (skip_ws u) = Some (vs, rest)"
  shows "parse_array s = Some (v # vs, rest)"
  by (subst parse_array.simps) (simp add: assms)

lemma parse_array_items:
  assumes "\<forall>d \<in> set (d # ds). distinct (map fst d)"
  shows "parse_array
     (encode_dict n d @
      join_rest (44 # newline_indent m) (map (encode_dict n) ds) @
      newline_indent lvl @ 93 # rest) =
   Some (JObject (map (\<lambda>kv. (fst kv, JString (snd kv))) d) #
         map (\<lambda>d. JObject (map (\<lambda>kv. (fst kv, JString (snd kv))) d)) ds, rest)"
  using assms
proof (induction ds arbitrary: d)
  case Nil
  let ?t = "newline_indent lvl @ 93 # rest"
  have "scan_once (encode_dict n d @ ?t) =
      Some (JObject (map (\<lambda>kv. (fst kv, JString (snd kv))) d), ?t)"
    using Nil.prems by (simp add: scan_once_dict)
  moreover have "length ?t < length (encode_dict n d @ ?t)"
    using length_encode_dict[of n d] by simp
  moreover have "skip_ws ?t = 93 # rest"
    by (rule skip_ws_indent) (simp add: is_ws_def)
  ultimately have "parse_array (encode_dict n d @ ?t) =
      Some ([JObject (map (\<lambda>kv. (fst kv, JString (snd kv))) d)], rest)"
    by (rule parse_array_close)
  then show ?case by simp
next
  case (Cons d' ds)
  let ?u' = "encode_dict n d' @
      join_rest (44 # newline_indent m) (map (encode_dict n) ds) @
      newline_indent lvl @ 93 # rest"
  let ?t = "44 # newline_indent m @ ?u'"
  obtain x where x: "encode_dict n d' = 123 # x" using encode_dict_head by blast
  have shape: "encode_dict n d @
      join_rest (44 # newline_indent m) (map (encode_dict n) (d' # ds)) @
      newline_indent lvl @ 93 # rest = encode_dict n d @ ?t"
    by simp
  have 1: "scan_once (encode_dict n d @ ?t) =
      Some (JObject (map (\<lambda>kv. (fst kv, JString (snd kv))) d), ?t)"
    using Cons.prems by (simp add: scan_once_dict)
  have 2: "length ?t < length (encode_dict n d @ ?t)"
    using length_encode_dict[of n d] by simp
  have 3: "skip_ws ?t = 44 # (newline_indent m @ ?u')"
    by (simp add: skip_ws_keep is_ws_simps)
  have "skip_ws (newline_indent m @ 123 # x @
      join_rest (44 # newline_indent m) (map (encode_dict n) ds) @
      newline_indent lvl @ 93 # rest) = 123 # x @
      join_rest (44 # newline_indent m) (map (encode_dict n) ds) @
      newline_indent lvl @ 93 # rest"
    by (rule skip_ws_indent) (simp add: is_ws_def)
  then have skip: "skip_ws (newline_indent m @ ?u') = ?u'" by (simp add: x)
  have 4: "parse_array (skip_ws (newline_indent m @ ?u')) =
      Some (JObject (map (\<lambda>kv. (fst kv, JString (snd kv))) d') #
            map (\<lambda>d. JObject (map (\<lambda>kv. (fst kv, JString (snd kv))) d)) ds, rest)"
    unfolding skip using Cons.prems by (intro Cons.IH) simp
  have "parse_array (encode_dict n d @ ?t) =
      Some (JObject (map (\<lambda>kv. (fst kv, JString (snd kv))) d) #
            JObject (map (\<lambda>kv. (fst kv, JString (snd kv))) d') #
            map (\<lambda>d. JObject (map (\<lambda>kv. (fst kv, JString (snd kv))) d)) ds, rest)"
    using 1 2 3 4 by (rule parse_array_more)
  then show ?case unfolding shape by simp
qed

lemma scan_once_array:
  assumes "parse_array (123 # t) = Some (vs, rest)"
  shows "scan_once (91 # newline_indent n @ 123 # t) = Some (JArray vs, rest)"
proof -
  have "skip_ws (newline_indent n @ 123 # t) = 123 # t"
    by (rule skip_ws_indent) (simp add: is_ws_def)
  then show ?thesis
    by (subst scan_once.simps) (simp add: assms)
qed

lemma json_loads_dumps:
  assumes "\<forall>d \<in> set sts. distinct (map fst d)"
  shows "json_loads (json_dumps sts) = Some (stations_json sts)"
proof (cases sts)
  case Nil
  have "scan_once [91, 93] = Some (JArray [], [])"
    by (subst scan_once.simps) (simp add: skip_ws_keep is_ws_simps)
  then show ?thesis
    unfolding Nil
    by (simp add: json_loads_def json_dumps_def encode_list_def stations_json_def
        startswith_def skip_ws_def is_ws_def)
next
  case (Cons d ds)
  let ?vs = "JObject (map (\<lambda>kv. (fst kv, JString (snd kv))) d) #
         map (\<lambda>d. JObject (map (\<lambda>kv. (fst kv, JString (snd kv))) d)) ds"
  let ?items = "encode_dict 1 d @
      join_rest (44 # newline_indent 1) (map (encode_dict 1) ds) @
      newline_indent 0 @ 93 # []"
  obtain x where x: "encode_dict 1 d = 123 # x" using encode_dict_head by blast
  have items: "parse_array ?items = Some (?vs, [])"
    using assms unfolding Cons by (intro parse_array_items) simp
  have shape: "json_dumps (d # ds) = 91 # newline_indent 1 @ ?items"
    by (simp add: json_dumps_def encode_list_def)
  have "scan_once (91 # newline_indent 1 @ ?items) = Some (JArray ?vs, [])"
    using items unfolding x append_Cons by (rule scan_once_array)
  then show ?thesis
    unfolding Cons shape
    by (simp add: json_loads_def stations_json_def startswith_def skip_ws_def is_ws_def)
qed

section \<open>Properties of the station list and its file\<close>

section \<open>Properties of the registry\<close>

lemma utf8_encodable_append [simp]:
  "utf8_encodable (a @ b) \<longleftrightarrow> utf8_encodable a \<and> utf8_encodable b"
  by (simp add: utf8_encodable_def)

lemma utf8_encodable_Cons:
  "utf8_encodable (c # s) \<longleftrightarrow> (c < 55296 \<or> (57343 < c \<and> c < 1114112)) \<and> utf8_encodable s"
  by (simp add: utf8_encodable_def)

lemma utf8_encodable_Nil [simp]: "utf8_encodable []"
  by (simp add: utf8_encodable_def)

lemma utf8_encodable_indent [simp]: "utf8_encodable (newline_indent n)"
  by (simp add: utf8_encodable_def newline_indent_def list_all_iff)

lemma hexdigit_small: "n < 16 \<Longrightarrow> hexdigit n < 103"
  by (simp add: hexdigit_def)

lemma utf8_encodable_escape:
  assumes "c < 55296 \<or> (57343 < c \<and> c < 1114112)"
  shows "utf8_encodable (escape_char c)"
proof (cases "c < 32")
  case True
  then have "c div 16 < 16" "c mod 16 < 16" by auto
  then have "hexdigit (c div 16) < 103" "hexdigit (c mod 16) < 103"
    by (simp_all add: hexdigit_small)
  with True show ?thesis by (simp add: escape_char_def utf8_encodable_Cons)
next
  case False
  with assms show ?thesis by (simp add: escape_char_def utf8_encodable_Cons)
qed

lemma utf8_encodable_basestring:
  "utf8_encodable s \<Longrightarrow> utf8_encodable (encode_basestring s)"
proof (induction s)
  case Nil
  show ?case by (simp add: encode_basestring_def utf8_encodable_Cons)
next
  case (Cons c s)
  then have "utf8_encodable (escape_char c)" "utf8_encodable (encode_basestring s)"
    by (simp_all add: utf8_encodable_Cons utf8_encodable_escape)
  then show ?case by (simp add: encode_basestring_def utf8_encodable_Cons)
qed

lemma utf8_encodable_join_rest:
  "utf8_encodable sep \<Longrightarrow> \<forall>x \<in> set xs. utf8_encodable x \<Longrightarrow> utf8_encodable (join_rest sep xs)"
  by (induction xs) simp_all

lemma utf8_encodable_join:
  "utf8_encodable sep \<Longrightarrow> \<forall>x \<in> set xs. utf8_encodable x \<Longrightarrow> utf8_encodable (join sep xs)"
  by (cases xs) (simp_all add: utf8_encodable_join_rest)

lemma utf8_encodable_dict:
  assumes "\<forall>kv \<in> set d. utf8_encodable (fst kv) \<and> utf8_encodable (snd kv)"
  shows "utf8_encodable (encode_dict lvl d)"
proof -
  have "\<forall>x \<in> set (map encode_item d). utf8_encodable x"
    using assms by (simp add: encode_item_def utf8_encodable_basestring utf8_encodable_Cons)
  then have "utf8_encodable (join (44 # newline_indent (lvl + 1)) (map encode_item d))"
    by (intro utf8_encodable_join) (simp_all add: utf8_encodable_Cons)
  then show ?thesis by (simp add: encode_dict_def utf8_encodable_Cons)
qed

lemma utf8_encodable_dumps:
  assumes "\<forall>d \<in> set sts. \<forall>kv \<in> set d. utf8_encodable (fst kv) \<and> utf8_encodable (snd kv)"
  shows "utf8_encodable (json_dumps sts)"
proof -
  have "\<forall>x \<in> set (map (encode_dict 1) sts). utf8_encodable x"
    using assms by (simp add: utf8_encodable_dict)
  then have "utf8_encodable (join (44 # newline_indent 1) (map (encode_dict 1) sts))"
    by (intro utf8_encodable_join) (simp_all add: utf8_encodable_Cons)
  then show ?thesis by (simp add: json_dumps_def encode_list_def utf8_encodable_Cons)
qed

lemma utf8_encodable_str_ascii: "utf8_encodable (str s)"
proof -
  have "(of_char c :: nat) < 55296" for c :: char
    using nat_of_char_less_256[of c] by linarith
  then show ?thesis by (simp add: utf8_encodable_def str_def list_all_iff)
qed

lemma mp3_known_extension: "endswith (str ''http://r/a.mp3'') stream_extensions"
  by (simp add: endswith_def stream_extensions_def str_def suffix_def)

lemma resolve_mp3:
  "fst (resolve_playlist net (str ''http://r/a.mp3'') 5) = Inr (str ''http://r/a.mp3'')"
  using mp3_known_extension by (simp add: resolve_playlist_def resolve_body_def)

lemma resolve_empty_no_scheme: "fst (resolve_playlist no_scheme [] 5) = Inr []"
  by (simp add: resolve_playlist_def resolve_body_def no_scheme_def endswith_def
      stream_extensions_def str_def)

lemma save_stations_keeps:
  "stations (save_stations b) = stations b"
  "current_url (save_stations b) = current_url b"
  "playing (save_stations b) = playing b"
  "writable (save_stations b) = writable b"
  by (simp_all add: save_stations_def)

lemma save_stations_file:
  "stations_file (save_stations b) =
     (if \<not> writable b then stations_file b
      else if utf8_encodable (json_dumps (stations b)) then Text (json_dumps (stations b))
      else Partial)"
  by (simp add: save_stations_def)

lemma save_stations_effects:
  "\<exists>tail. effects (save_stations b) = effects b @ tail \<and> EngineStop \<notin> set tail"
  by (simp add: save_stations_def)

lemma save_stations_view:
  "listbox (save_stations b) = listbox b"
  "status_var (save_stations b) = status_var b"
  by (simp_all add: save_stations_def)

text \<open>The editor's path validates: with an empty name or URL nothing is appended or written.\<close>

lemma on_ok_validates:
  assumes "strip name_var = [] \<or> strip url_var = []"
  shows "\<exists>a'. on_ok index name_var info_var url_var a = Inr a' \<and>
           stations a' = stations a \<and> stations_file a' = stations_file a"
  using assms by (auto simp: on_ok_def Let_def)

text \<open>
  C6. The path that adds a search result does not validate. A result with an empty name is
  appended and written with its empty name, whatever the network does, and a result without
  a URL is appended and written with an empty URL.
\<close>

theorem add_search_appends_unvalidated:
  "map_sum id (\<lambda>a'. (stations a', stations_file a'))
     (on_add_search net (Some 0) ((started [])\<lparr>search_results := [nameless_result]\<rparr>)) =
     Inr ([station_entry [] [] (str ''http://r/a.mp3'')],
          Text (json_dumps [station_entry [] [] (str ''http://r/a.mp3'')])) \<and>
   map_sum id (\<lambda>a'. (stations a', stations_file a'))
     (on_add_search no_scheme (Some 0) ((started [])\<lparr>search_results := [urlless_result]\<rparr>)) =
     Inr ([station_entry (str ''N'') [] []],
          Text (json_dumps [station_entry (str ''N'') [] []]))"
proof -
  have enc1: "utf8_encodable (json_dumps [station_entry [] [] (str ''http://r/a.mp3'')])"
    by (rule utf8_encodable_dumps) (simp add: station_entry_def utf8_encodable_str_ascii)
  have enc2: "utf8_encodable (json_dumps [station_entry (str ''N'') [] []])"
    by (rule utf8_encodable_dumps) (simp add: station_entry_def utf8_encodable_str_ascii)
  have url1: "item_url nameless_result = str ''http://r/a.mp3''"
    by (simp add: item_url_def nameless_result_def dict_get_or_def Let_def str_def)
  have url2: "item_url urlless_result = []"
    by (simp add: item_url_def urlless_result_def dict_get_or_def Let_def str_def)
  have name1: "dict_get_or nameless_result ''name'' (str ''(no name)'') = []"
    "dict_get_or nameless_result ''tags'' [] = []"
    by (simp_all add: nameless_result_def dict_get_or_def str_def)
  have name2: "dict_get_or urlless_result ''name'' (str ''(no name)'') = str ''N''"
    "dict_get_or urlless_result ''tags'' [] = []"
    by (simp_all add: urlless_result_def dict_get_or_def str_def)
  show ?thesis
    by (simp add: on_add_search_def add_search_thread_def finish_def save_stations_def
        started_def Let_def url1 url2 name1 name2 resolve_mp3 resolve_empty_no_scheme enc1 enc2)
qed

lemma json_loads_open_brace: "json_loads (str ''{'') = None"
proof -
  have "scan_once [123] = None"
    by (subst scan_once.simps) (simp add: skip_ws_def)
  then show ?thesis
    by (simp add: json_loads_def startswith_def skip_ws_def is_ws_def str_def)
qed

lemma json_loads_empty_array: "json_loads (str ''[]'') = Some (JArray [])"
  using json_loads_dumps[of "[]"]
  by (simp add: json_dumps_def encode_list_def stations_json_def str_def)

text \<open>
  C7 as the claim states it fails: a file holding the text \<open>{\<close> is there and is not a JSON
  document, and so is a file that cannot be opened; \<open>load_stations\<close> raises for both.
\<close>

theorem load_stations_malformed_counterexample:
  "load_stations (Text (str ''{'')) = Inl JSONDecodeError \<and>
   load_stations (Text (str ''{'')) \<noteq> Inr (JArray []) \<and>
   load_stations Unreadable \<noteq> Inr (JArray [])"
  by (simp add: load_stations_def json_loads_open_brace)

text \<open>
  C7, amended. An absent file gives the empty list. A file that cannot be opened makes
  \<open>load_stations\<close> raise, and so does a text that is not a JSON document. The empty list is
  the answer only for an absent file and for a document that is an empty array.
\<close>

theorem load_stations_absent_only:
  "load_stations Absent = Inr (JArray []) \<and>
   load_stations Unreadable = Inl OSError \<and>
   (json_loads doc = None \<longrightarrow> load_stations (Text doc) = Inl JSONDecodeError) \<and>
   (load_stations f = Inr (JArray []) \<longrightarrow>
      f = Absent \<or> (\<exists>doc. f = Text doc \<and> json_loads doc = Some (JArray [])))"
  by (cases f) (auto simp: load_stations_def split: option.splits)

theorem load_stations_absent_only_witness:
  "json_loads (str ''{'') = None \<and> load_stations (Text (str ''{'')) = Inl JSONDecodeError \<and>
   load_stations (Text (str ''[]'')) = Inr (JArray []) \<and>
   json_loads (str ''[]'') = Some (JArray [])"
proof -
  have "load_stations (Text (str ''[]'')) = Inr (JArray [])"
    by (simp add: load_stations_def json_loads_empty_array)
  with load_stations_absent_only[of "str ''{''" "Text (str ''[]'')"] json_loads_open_brace
  show ?thesis by simp
qed

text \<open>
  C8. For an index in range and a confirmed deletion: exactly the record at the index is
  removed, from the list and from the list box; when its URL, read from the list before the
  removal, is the player's current URL the player is stopped, and the stop is the first
  thing done after the confirmation; otherwise the player and the status line are left as
  they were and no stop is issued; in both cases the list after the removal is what
  \<open>save_stations\<close> writes. A declined confirmation changes nothing.
\<close>

theorem on_delete_stops_then_removes:
  assumes "idx < length (stations a)"
  shows "\<exists>a'. on_delete (Some idx) True a = Inr a' \<and>
     stations a' = take idx (stations a) @ drop (Suc idx) (stations a) \<and>
     listbox a' = take idx (listbox a) @ drop (Suc idx) (listbox a) \<and>
     (if current_url a = dict_get (stations a ! idx) ''url''
      then current_url a' = None \<and> \<not> playing a' \<and> status_var a' = str ''Stopped'' \<and>
           take (length (effects a) + 2) (effects a') =
             effects a @ [AskYesNo ''Delete'', EngineStop]
      else current_url a' = current_url a \<and> playing a' = playing a \<and>
           status_var a' = status_var a \<and>
           EngineStop \<notin> set (drop (length (effects a)) (effects a'))) \<and>
     stations_file a' =
       (if \<not> writable a then stations_file a
        else if utf8_encodable (json_dumps (stations a')) then Text (json_dumps (stations a'))
        else Partial) \<and>
     on_delete (Some idx) False a = Inr (a\<lparr>effects := effects a @ [AskYesNo ''Delete'']\<rparr>)"
proof (cases "current_url a = dict_get (stations a ! idx) ''url''")
  case True
  define b where "b = a\<lparr>playing := False, current_url := None,
      effects := effects a @ [AskYesNo ''Delete'', EngineStop], status_var := str ''Stopped'',
      stations := delete_at idx (stations a), listbox := delete_at idx (listbox a)\<rparr>"
  have run: "on_delete (Some idx) True a = Inr (save_stations b)"
    using assms True by (simp add: on_delete_def Let_def stop_def b_def)
  have no: "on_delete (Some idx) False a = Inr (a\<lparr>effects := effects a @ [AskYesNo ''Delete'']\<rparr>)"
    using assms by (simp add: on_delete_def Let_def)
  have b: "stations b = take idx (stations a) @ drop (Suc idx) (stations a)"
    "current_url b = None" "\<not> playing b" "writable b = writable a"
    "stations_file b = stations_file a"
    "listbox b = take idx (listbox a) @ drop (Suc idx) (listbox a)"
    "status_var b = str ''Stopped''"
    "effects b = effects a @ [AskYesNo ''Delete'', EngineStop]"
    by (simp_all add: b_def delete_at_def)
  obtain tail where tail: "effects (save_stations b) = effects b @ tail"
    using save_stations_effects by blast
  have "take (length (effects a) + 2) (effects (save_stations b)) =
      effects a @ [AskYesNo ''Delete'', EngineStop]"
    by (simp add: tail b(8))
  with True show ?thesis
    unfolding run no by (simp add: save_stations_keeps save_stations_view save_stations_file b(1-7))
next
  case False
  define b where "b = a\<lparr>effects := effects a @ [AskYesNo ''Delete''],
      stations := delete_at idx (stations a), listbox := delete_at idx (listbox a)\<rparr>"
  have run: "on_delete (Some idx) True a = Inr (save_stations b)"
    using assms False by (simp add: on_delete_def Let_def b_def)
  have no: "on_delete (Some idx) False a = Inr (a\<lparr>effects := effects a @ [AskYesNo ''Delete'']\<rparr>)"
    using assms by (simp add: on_delete_def Let_def)
  have b: "stations b = take idx (stations a) @ drop (Suc idx) (stations a)"
    "current_url b = current_url a" "playing b = playing a" "writable b = writable a"
    "stations_file b = stations_file a"
    "listbox b = take idx (listbox a) @ drop (Suc idx) (listbox a)"
    "status_var b = status_var a"
    "effects b = effects a @ [AskYesNo ''Delete'']"
    by (simp_all add: b_def delete_at_def)
  obtain tail where tail: "effects (save_stations b) = effects b @ tail"
    "EngineStop \<notin> set tail"
    using save_stations_effects by blast
  have "EngineStop \<notin> set (drop (length (effects a)) (effects (save_stations b)))"
    by (simp add: tail b(8))
  with False show ?thesis
    unfolding run no by (simp add: save_stations_keeps save_stations_view save_stations_file b(1-7))
qed

lemma playing_first_station:
  "current_url two_stations = dict_get (stations two_stations ! 0) ''url''"
  by (simp add: two_stations_def started_def station_entry_def dict_get_def str_def)

theorem on_delete_stops_then_removes_witness:
  "\<exists>a'. on_delete (Some 0) True two_stations = Inr a' \<and>
     stations a' = [station_entry (str ''B'') [] (str ''http://s/b'')] \<and>
     current_url a' = None \<and> \<not> playing a' \<and>
     take 2 (effects a') = [AskYesNo ''Delete'', EngineStop]"
proof -
  have len: "0 < length (stations two_stations)"
    by (simp add: two_stations_def started_def)
  have sts: "take 0 (stations two_stations) @ drop (Suc 0) (stations two_stations) =
      [station_entry (str ''B'') [] (str ''http://s/b'')]"
    by (simp add: two_stations_def started_def)
  have eff: "effects two_stations = []"
    by (simp add: two_stations_def started_def)
  from on_delete_stops_then_removes[OF len] obtain a' where
    run: "on_delete (Some 0) True two_stations = Inr a'"
    and rest: "stations a' = take 0 (stations two_stations) @ drop (Suc 0) (stations two_stations)"
    and stop: "if current_url two_stations = dict_get (stations two_stations ! 0) ''url''
      then current_url a' = None \<and> \<not> playing a' \<and> status_var a' = str ''Stopped'' \<and>
           take (length (effects two_stations) + 2) (effects a') =
             effects two_stations @ [AskYesNo ''Delete'', EngineStop]
      else current_url a' = current_url two_stations \<and> playing a' = playing two_stations \<and>
           status_var a' = status_var two_stations \<and>
           EngineStop \<notin> set (drop (length (effects two_stations)) (effects a'))"
    by blast
  from stop playing_first_station have "current_url a' = None \<and> \<not> playing a' \<and>
      take (length (effects two_stations) + 2) (effects a') =
        effects two_stations @ [AskYesNo ''Delete'', EngineStop]"
    by simp
  then have "current_url a' = None" "\<not> playing a'"
    "take 2 (effects a') = [AskYesNo ''Delete'', EngineStop]"
    by (simp_all add: eff numeral_2_eq_2)
  with run rest sts show ?thesis by (intro exI[of _ a']) (simp only: simp_thms)
qed

text \<open>Saving, then loading: the document written is read back as the list that was saved.\<close>

lemma save_then_load:
  assumes "\<forall>d \<in> set (stations b). distinct (map fst d)"
    and "utf8_encodable (json_dumps (stations b))"
    and "writable b"
  shows "load_stations (stations_file (save_stations b)) = Inr (stations_json (stations b))"
  using assms by (simp add: save_stations_file load_stations_def json_loads_dumps)

text \<open>Two lists with the same JSON value are the same list.\<close>

lemma stations_json_inj: "stations_json xs = stations_json ys \<Longrightarrow> xs = ys"
proof -
  have "inj (\<lambda>kv :: pystr \<times> pystr. (fst kv, JString (snd kv)))"
    by (rule injI) (auto simp: prod_eq_iff)
  then have items: "inj (map (\<lambda>kv :: pystr \<times> pystr. (fst kv, JString (snd kv))))"
    by simp
  have "inj (\<lambda>d :: pydict. JObject (map (\<lambda>kv. (fst kv, JString (snd kv))) d))"
    by (rule injI) (use items in \<open>auto dest: injD\<close>)
  then have "inj (map (\<lambda>d :: pydict. JObject (map (\<lambda>kv. (fst kv, JString (snd kv))) d)))"
    by simp
  then show "stations_json xs = stations_json ys \<Longrightarrow> xs = ys"
    by (auto simp: stations_json_def dest: injD)
qed

lemma station_entry_keys: "distinct (map fst (station_entry name info url))"
  by (simp add: station_entry_def str_def)

lemma save_stations_reports:
  "\<not> (writable b \<and> utf8_encodable (json_dumps (stations b))) \<Longrightarrow>
   ShowError ''Save error'' \<in> set (effects (save_stations b))"
  by (auto simp: save_stations_def)

lemma save_stations_silent:
  "writable b \<Longrightarrow> utf8_encodable (json_dumps (stations b)) \<Longrightarrow>
   effects (save_stations b) = effects b"
  by (simp add: save_stations_def)

text \<open>
  C9. A station that the editor accepts is added and the list saved. When the file can be
  written and the document encoded, no error is shown and what \<open>load_stations\<close> reads from
  the file is the list in memory, the new station last, whatever the file held before the
  Save; otherwise the error dialog is shown. (A Python dict holds each key once.)
\<close>

theorem add_save_reload_roundtrip:
  assumes "\<forall>d \<in> set (stations a). distinct (map fst d)"
    and "strip name_var \<noteq> []" and "strip url_var \<noteq> []"
  shows "\<exists>a1. on_ok None name_var info_var url_var a = Inr a1 \<and>
     stations (on_save a1) =
       stations a @ [station_entry (strip name_var) (strip info_var) (strip url_var)] \<and>
     listbox (on_save a1) = listbox a @ [strip name_var @ str '' - '' @ strip info_var] \<and>
     (if writable a \<and> utf8_encodable (json_dumps (stations (on_save a1)))
      then (\<forall>f. load_stations (stations_file (on_save (a1\<lparr>stations_file := f\<rparr>))) =
                  Inr (stations_json (stations (on_save a1)))) \<and>
           effects (on_save a1) = effects a @ [ShowInfo ''Saved'']
      else ShowError ''Save error'' \<in> set (effects (on_save a1)))"
proof -
  let ?entry = "station_entry (strip name_var) (strip info_var) (strip url_var)"
  define b where "b = a\<lparr>stations := stations a @ [?entry],
      listbox := listbox a @ [strip name_var @ str '' - '' @ strip info_var]\<rparr>"
  have run: "on_ok None name_var info_var url_var a = Inr (save_stations b)"
    using assms(2,3) by (simp add: on_ok_def Let_def b_def)
  have b: "stations b = stations a @ [?entry]" "writable b = writable a" "effects b = effects a"
    "listbox b = listbox a @ [strip name_var @ str '' - '' @ strip info_var]"
    by (simp_all add: b_def)
  have keys: "\<forall>d \<in> set (stations b). distinct (map fst d)"
    using assms(1) station_entry_keys by (auto simp: b(1))
  let ?c = "save_stations b"
  have c: "stations ?c = stations b" "writable ?c = writable b"
    by (simp_all add: save_stations_keeps)
  have saved: "stations_file (on_save c') = stations_file (save_stations c')"
    "stations (on_save c') = stations c'"
    "listbox (on_save c') = listbox c'"
    "effects (on_save c') = effects (save_stations c') @ [ShowInfo ''Saved'']" for c'
    by (simp_all add: on_save_def Let_def save_stations_keeps save_stations_view)
  show ?thesis
  proof (cases "writable a \<and> utf8_encodable (json_dumps (stations b))")
    case True
    then have ok: "writable ?c" "utf8_encodable (json_dumps (stations ?c))"
      "writable b" "utf8_encodable (json_dumps (stations b))"
      by (simp_all add: c b(2))
    have "load_stations (stations_file (save_stations (?c\<lparr>stations_file := f\<rparr>))) =
        Inr (stations_json (stations b))" for f
      using save_then_load[of "?c\<lparr>stations_file := f\<rparr>"] keys ok(1,2) by (simp add: c(1))
    moreover have "effects (save_stations ?c) = effects a"
      using ok by (simp add: save_stations_silent b(3))
    ultimately show ?thesis
      unfolding run using True by (simp add: saved c(1) b(1,4) save_stations_view)
  next
    case False
    then have "\<not> (writable ?c \<and> utf8_encodable (json_dumps (stations ?c)))"
      by (simp add: c b(2))
    then have "ShowError ''Save error'' \<in> set (effects (save_stations ?c))"
      by (rule save_stations_reports)
    moreover from False
    have "\<not> (writable a \<and> utf8_encodable (json_dumps (stations (on_save ?c))))"
      by (simp add: saved(2) c(1))
    ultimately show ?thesis
      unfolding run by (auto simp: saved c(1) b(1,4) save_stations_view)
  qed
qed

lemma strip_jazz: "strip (str '' Jazz '') = str ''Jazz''"
  by (simp add: strip_def str_def isspace_def)

lemma strip_stream_url: "strip (str ''http://s/a'') = str ''http://s/a''"
  by (simp add: strip_def str_def isspace_def)

theorem add_save_reload_roundtrip_witness:
  "\<exists>a1. on_ok None (str '' Jazz '') [] (str ''http://s/a'') (started []) = Inr a1 \<and>
     stations (on_save a1) = [station_entry (str ''Jazz'') [] (str ''http://s/a'')] \<and>
     load_stations (stations_file (on_save a1)) =
       Inr (stations_json [station_entry (str ''Jazz'') [] (str ''http://s/a'')])"
proof -
  let ?entry = "station_entry (str ''Jazz'') [] (str ''http://s/a'')"
  have none: "stations (started []) = []" "writable (started [])"
    by (simp_all add: started_def)
  have "str ''Jazz'' \<noteq> []" "str ''http://s/a'' \<noteq> []"
    by (simp_all add: str_def)
  then have n: "strip (str '' Jazz '') \<noteq> []" "strip (str ''http://s/a'') \<noteq> []"
    by (simp_all add: strip_jazz strip_stream_url)
  have e: "strip [] = []" by (simp add: strip_def)
  have enc: "utf8_encodable (json_dumps [?entry])"
    by (rule utf8_encodable_dumps) (simp add: station_entry_def utf8_encodable_str_ascii)
  from add_save_reload_roundtrip[of "started []" "str '' Jazz ''" "str ''http://s/a''" "[]"] n
  obtain a1 where run: "on_ok None (str '' Jazz '') [] (str ''http://s/a'') (started []) = Inr a1"
    and sts: "stations (on_save a1) = [?entry]"
    and rest: "if writable (started []) \<and> utf8_encodable (json_dumps (stations (on_save a1)))
      then (\<forall>f. load_stations (stations_file (on_save (a1\<lparr>stations_file := f\<rparr>))) =
                  Inr (stations_json (stations (on_save a1)))) \<and>
           effects (on_save a1) = effects (started []) @ [ShowInfo ''Saved'']
      else ShowError ''Save error'' \<in> set (effects (on_save a1))"
    by (auto simp: none strip_jazz strip_stream_url e)
  from rest have "\<forall>f. load_stations (stations_file (on_save (a1\<lparr>stations_file := f\<rparr>))) =
      Inr (stations_json [?entry])"
    by (simp add: sts enc none)
  from this[rule_format, of "stations_file a1"]
  have "load_stations (stations_file (on_save a1)) = Inr (stations_json [?entry])"
    by simp
  with run sts show ?thesis by (intro exI[of _ a1]) simp
qed

end
